theory Spec2Isabelle
  imports Main "HOL-Library.Sublist"
begin

section \<open>JavaScript string primitives\<close>

text \<open>
  Strings are lists of code units below 256. In this range \<^verbatim>\<open>trim\<close> strips the code
  units 9 to 13, 32 and 160 (no-break space), and \<^verbatim>\<open>toLowerCase\<close> maps \<open>A\<close> to \<open>Z\<close>
  and the letters 192 to 222 other than the multiplication sign 215 to the code unit 32
  above. \<^verbatim>\<open>toUpperCase\<close> is only ever applied to a character matched by \<^verbatim>\<open>\w\<close>.
\<close>

definition code :: "char \<Rightarrow> nat" where
  "code c = of_char c"

definition nl :: char where "nl = CHR 0x0A"
definition dq :: char where "dq = CHR 0x22"
definition bsl :: char where "bsl = CHR 0x5C"

definition isSpace :: "char \<Rightarrow> bool" where
  "isSpace c = (code c = 32 \<or> (9 \<le> code c \<and> code c \<le> 13) \<or> code c = 160)"

definition toLowerChar :: "char \<Rightarrow> char" where
  "toLowerChar c =
     (if (65 \<le> code c \<and> code c \<le> 90) \<or> (192 \<le> code c \<and> code c \<le> 222 \<and> code c \<noteq> 215)
      then char_of (code c + 32) else c)"

definition toUpperChar :: "char \<Rightarrow> char" where
  "toUpperChar c = (if 97 \<le> code c \<and> code c \<le> 122 then char_of (code c - 32) else c)"

definition toLowerCase :: "string \<Rightarrow> string" where
  "toLowerCase s = map toLowerChar s"

definition trim :: "string \<Rightarrow> string" where
  "trim s = rev (dropWhile isSpace (rev (dropWhile isSpace s)))"

text \<open>\<^verbatim>\<open>s.includes(p)\<close>: \<open>p\<close> occurs in \<open>s\<close> as a contiguous run.\<close>

fun includesStr :: "string \<Rightarrow> string \<Rightarrow> bool" where
  "includesStr [] p = (p = [])"
| "includesStr (c # cs) p = (prefix p (c # cs) \<or> includesStr cs p)"

text \<open>\<^verbatim>\<open>s.split(sep)\<close> for a one-character separator; never the empty list.\<close>

fun split :: "char \<Rightarrow> string \<Rightarrow> string list" where
  "split sep [] = [[]]"
| "split sep (c # cs) =
     (if c = sep then [] # split sep cs
      else (case split sep cs of
              [] \<Rightarrow> [[c]]
            | l # ls \<Rightarrow> (c # l) # ls))"

text \<open>\<^verbatim>\<open>xs.join(sep)\<close>.\<close>

fun join :: "string \<Rightarrow> string list \<Rightarrow> string" where
  "join sep [] = []"
| "join sep [x] = x"
| "join sep (x # y # ys) = x @ sep @ join sep (y # ys)"

text \<open>Decimal rendering of numbers in template literals.\<close>

fun showNat :: "nat \<Rightarrow> string" where
  "showNat n = (if n < 10 then [char_of (48 + n)] else showNat (n div 10) @ [char_of (48 + n mod 10)])"

definition showInt :: "int \<Rightarrow> string" where
  "showInt i = (if i < 0 then CHR ''-'' # showNat (nat (- i)) else showNat (nat i))"

section \<open>Website blocking and student mode (main.js)\<close>

subsection \<open>State of the main process and of the machine\<close>

record timerData =
  websiteUrl :: string
  duration :: string
  endTime :: int
  startTime :: int
  timeoutId :: "nat option"

text \<open>
  The world a call runs in. \<open>fsOutcomes\<close> and \<open>execOutcomes\<close> are the outcomes of the
  coming file-system calls on the hosts file and of the coming spawned commands, in call
  order: \<open>None\<close> is success, \<open>Some m\<close> an error with message \<open>m\<close>; an exhausted list means
  success. \<open>studentModeTimers\<close> is the \<^verbatim>\<open>Map\<close> of the same name in insertion order,
  \<open>timeouts\<close> the pending \<^verbatim>\<open>setTimeout\<close> callbacks as (handle, due time, captured
  \<^verbatim>\<open>websiteUrl\<close>), \<open>sent\<close> the IPC messages sent so far as (window, channel, payload).
  The clock stands still during a call; the cleanup of legacy firewall rules at the end of
  \<^verbatim>\<open>unblockWebsite\<close> touches none of these components and is left out.
\<close>

record world =
  isRunningAsAdmin :: bool
  clock :: int
  hostsFile :: string
  fsOutcomes :: "string option list"
  execOutcomes :: "string option list"
  execLog :: "string list"
  studentModeTimers :: "(string \<times> timerData) list"
  timeouts :: "(nat \<times> int \<times> string) list"
  nextHandle :: nat
  windows :: "nat list"
  sent :: "(nat \<times> string \<times> string) list"

datatype error = Error string

record studentModeResult =
  smMessage :: string
  smEndTime :: int
  smDuration :: string

record activeTimer =
  atWebsiteUrl :: string
  atDuration :: string
  atStartTime :: int
  atEndTime :: int
  remainingMs :: int
  remainingFormatted :: string

subsection \<open>File system, child processes, timers\<close>

definition readFileSync :: "world \<Rightarrow> (string + string) \<times> world" where
  "readFileSync w =
     (case fsOutcomes w of
        [] \<Rightarrow> (Inr (hostsFile w), w)
      | None # q \<Rightarrow> (Inr (hostsFile w), w\<lparr>fsOutcomes := q\<rparr>)
      | Some m # q \<Rightarrow> (Inl m, w\<lparr>fsOutcomes := q\<rparr>))"

definition writeFileSync :: "world \<Rightarrow> string \<Rightarrow> (string + unit) \<times> world" where
  "writeFileSync w content =
     (case fsOutcomes w of
        [] \<Rightarrow> (Inr (), w\<lparr>hostsFile := content\<rparr>)
      | None # q \<Rightarrow> (Inr (), w\<lparr>hostsFile := content, fsOutcomes := q\<rparr>)
      | Some m # q \<Rightarrow> (Inl m, w\<lparr>fsOutcomes := q\<rparr>))"

text \<open>\<^verbatim>\<open>exec(command, callback)\<close> where the callback only logs the outcome.\<close>

definition exec :: "world \<Rightarrow> string \<Rightarrow> world" where
  "exec w command = w\<lparr>execLog := execLog w @ [command], execOutcomes := tl (execOutcomes w)\<rparr>"

definition mapGet :: "(string \<times> 'v) list \<Rightarrow> string \<Rightarrow> 'v option" where
  "mapGet m k = map_of m k"

definition mapSet :: "(string \<times> 'v) list \<Rightarrow> string \<Rightarrow> 'v \<Rightarrow> (string \<times> 'v) list" where
  "mapSet m k v =
     (if k \<in> set (map fst m) then map (\<lambda>(k', v'). if k' = k then (k', v) else (k', v')) m
      else m @ [(k, v)])"

definition mapDelete :: "(string \<times> 'v) list \<Rightarrow> string \<Rightarrow> (string \<times> 'v) list" where
  "mapDelete m k = filter (\<lambda>(k', v'). k' \<noteq> k) m"

definition clearTimeout :: "world \<Rightarrow> nat \<Rightarrow> world" where
  "clearTimeout w h = w\<lparr>timeouts := filter (\<lambda>(h', due, url). h' \<noteq> h) (timeouts w)\<rparr>"

subsection \<open>Canonical domain\<close>

text \<open>
  \<^verbatim>\<open>websiteUrl.trim().toLowerCase()\<close>, then \<^verbatim>\<open>.replace(/^https?:\/\//, '')\<close>,
  \<^verbatim>\<open>.replace(/^www\./, '')\<close> and \<^verbatim>\<open>.split('/')[0]\<close>.
\<close>

definition stripScheme :: "string \<Rightarrow> string" where
  "stripScheme s =
     (if prefix ''http://'' s then drop 7 s
      else if prefix ''https://'' s then drop 8 s
      else s)"

definition stripWww :: "string \<Rightarrow> string" where
  "stripWww s = (if prefix ''www.'' s then drop 4 s else s)"

definition cleanUrlOf :: "string \<Rightarrow> string" where
  "cleanUrlOf url = takeWhile (\<lambda>c. c \<noteq> CHR ''/'') (stripWww (stripScheme (toLowerCase (trim url))))"

subsection \<open>blockWebsite\<close>

definition blockLines :: "string \<Rightarrow> string list" where
  "blockLines cleanUrl =
     [''127.0.0.1 '' @ cleanUrl,
      ''127.0.0.1 '' @ ''www.'' @ cleanUrl,
      ''0.0.0.0 '' @ cleanUrl,
      ''0.0.0.0 '' @ ''www.'' @ cleanUrl]"

definition newEntries :: "string \<Rightarrow> string list" where
  "newEntries cleanUrl = (nl # ''# # Blocked by Technician App'') # blockLines cleanUrl"

definition quoted :: "string \<Rightarrow> string" where
  "quoted s = dq # s @ [dq]"

definition blockWebsite :: "world \<Rightarrow> string \<Rightarrow> (error + string) \<times> world" where
  "blockWebsite w url =
     (if \<not> isRunningAsAdmin w then
        (Inl (Error ''Administrator privileges required to block websites''), w)
      else if url = [] then (Inl (Error ''Invalid website URL''), w)
      else let cleanUrl = cleanUrlOf url in
        if cleanUrl = [] then (Inl (Error ''Invalid website URL format''), w)
        else
          (case readFileSync w of (r, w1) \<Rightarrow>
             let hostsContent = (case r of Inl m \<Rightarrow> [] | Inr c \<Rightarrow> c) in
             if includesStr hostsContent (''127.0.0.1 '' @ cleanUrl)
                \<or> includesStr hostsContent (''127.0.0.1 '' @ ''www.'' @ cleanUrl)
             then (Inr (''Website '' @ quoted cleanUrl @ '' is already blocked''), w1)
             else
               (case writeFileSync w1 (hostsContent @ join [nl] (newEntries cleanUrl) @ [nl]) of
                  (Inl m, w2) \<Rightarrow>
                    (Inl (Error (''Failed to modify hosts file: '' @ m
                       @ ''. Make sure the application is running as administrator.'')), w2)
                | (Inr u, w2) \<Rightarrow>
                    (Inr (''Website '' @ quoted cleanUrl
                       @ '' has been blocked using the system hosts file. Changes take effect immediately.''),
                     exec w2 ''ipconfig /flushdns''))))"

subsection \<open>blockWebsiteDeep\<close>

definition deepMarker :: string where
  "deepMarker = ''# Student Mode Deep Block''"

definition additionalBlocks :: "string \<Rightarrow> string list" where
  "additionalBlocks cleanUrl =
     [''0.0.0.0 '' @ cleanUrl @ '' '' @ deepMarker,
      ''0.0.0.0 '' @ ''www.'' @ cleanUrl @ '' '' @ deepMarker,
      ''127.0.0.1 '' @ cleanUrl @ '' '' @ deepMarker,
      ''127.0.0.1 '' @ ''www.'' @ cleanUrl @ '' '' @ deepMarker,
      ''0.0.0.0 *.'' @ cleanUrl @ '' '' @ deepMarker,
      ''127.0.0.1 *.'' @ cleanUrl @ '' '' @ deepMarker]"

text \<open>\<^verbatim>\<open>block.split(' ')[1]\<close>, coerced to a string by \<^verbatim>\<open>includes\<close>.\<close>

definition secondField :: "string \<Rightarrow> string" where
  "secondField block = (case split CHR '' '' block of a # b # rest \<Rightarrow> b | _ \<Rightarrow> ''undefined'')"

definition dnsCommands :: "string list" where
  "dnsCommands = [''ipconfig /flushdns'', ''ipconfig /registerdns'', ''ipconfig /release'', ''ipconfig /renew'']"

definition basicLevelMessage :: "string \<Rightarrow> string" where
  "basicLevelMessage cleanUrl =
     ''Website '' @ quoted cleanUrl @ '' has been blocked (basic level due to deep blocking error).''"

definition deepMessage :: "string \<Rightarrow> string" where
  "deepMessage cleanUrl =
     ''Website '' @ quoted cleanUrl
       @ '' has been deeply blocked for student mode. All browser access is prevented.''"

definition blockWebsiteDeep :: "world \<Rightarrow> string \<Rightarrow> (error + string) \<times> world" where
  "blockWebsiteDeep w url =
     (if \<not> isRunningAsAdmin w then
        (Inl (Error ''Administrator privileges required to block websites''), w)
      else let cleanUrl = cleanUrlOf url in
        if cleanUrl = [] then (Inl (Error ''Invalid website URL format''), w)
        else
          (case blockWebsite w cleanUrl of
             (Inl (Error m), w1) \<Rightarrow> (Inl (Error (''Failed to deep block website: '' @ m)), w1)
           | (Inr hostsResult, w1) \<Rightarrow>
               (case readFileSync w1 of
                  (Inl m, w2) \<Rightarrow> (Inr (basicLevelMessage cleanUrl), w2)
                | (Inr hostsContent, w2) \<Rightarrow>
                    let deepBlockExists =
                          list_ex (\<lambda>block. includesStr hostsContent (secondField block))
                            (additionalBlocks cleanUrl);
                        written =
                          (if \<not> deepBlockExists then
                             writeFileSync w2
                               (hostsContent @ [nl, nl] @ ''# Student Mode Deep Blocking Entries'' @ [nl]
                                  @ join [nl] (additionalBlocks cleanUrl) @ [nl])
                           else (Inr (), w2))
                    in (case written of
                          (Inl m, w3) \<Rightarrow> (Inr (basicLevelMessage cleanUrl), w3)
                        | (Inr u, w3) \<Rightarrow> (Inr (deepMessage cleanUrl), foldl exec w3 dnsCommands)))))"

subsection \<open>formatTimeRemaining\<close>

text \<open>JavaScript's \<^verbatim>\<open>%\<close> takes the sign of the dividend.\<close>

definition jsRem :: "int \<Rightarrow> int \<Rightarrow> int" where
  "jsRem a b = sgn a * (\<bar>a\<bar> mod \<bar>b\<bar>)"

definition formatTimeRemaining :: "int \<Rightarrow> string" where
  "formatTimeRemaining ms =
     (let totalSeconds = ms div 1000;
          days = totalSeconds div (24 * 3600);
          hours = jsRem totalSeconds (24 * 3600) div 3600;
          minutes = jsRem totalSeconds 3600 div 60;
          seconds = jsRem totalSeconds 60
      in if days > 0 then
           showInt days @ ''d '' @ showInt hours @ ''h '' @ showInt minutes @ ''m '' @ showInt seconds @ ''s''
         else if hours > 0 then
           showInt hours @ ''h '' @ showInt minutes @ ''m '' @ showInt seconds @ ''s''
         else if minutes > 0 then showInt minutes @ ''m '' @ showInt seconds @ ''s''
         else showInt seconds @ ''s'')"

subsection \<open>unblockWebsite\<close>

definition blocksWebsite :: "string \<Rightarrow> string \<Rightarrow> bool" where
  "blocksWebsite cleanUrl trimmedLine =
     ((includesStr trimmedLine (''127.0.0.1 '' @ cleanUrl)
       \<or> includesStr trimmedLine (''127.0.0.1 '' @ ''www.'' @ cleanUrl)
       \<or> includesStr trimmedLine (''0.0.0.0 '' @ cleanUrl)
       \<or> includesStr trimmedLine (''0.0.0.0 '' @ ''www.'' @ cleanUrl)
       \<or> includesStr trimmedLine (''*.'' @ cleanUrl)
       \<or> (includesStr trimmedLine ''Student Mode Deep Block'' \<and> includesStr trimmedLine cleanUrl))
      \<and> \<not> prefix ''#'' trimmedLine)"

definition deepComment :: "string \<Rightarrow> bool" where
  "deepComment trimmedLine =
     (includesStr trimmedLine ''Student Mode Deep Blocking Entries''
      \<or> (prefix ''#'' trimmedLine \<and> includesStr trimmedLine ''Student Mode Deep Block''))"

text \<open>The loop over the lines: the lines kept and \<^verbatim>\<open>removedCount\<close>.\<close>

fun filterLines :: "string \<Rightarrow> string list \<Rightarrow> string list \<Rightarrow> nat \<Rightarrow> string list \<times> nat" where
  "filterLines cleanUrl [] filteredLines removedCount = (filteredLines, removedCount)"
| "filterLines cleanUrl (line # lines) filteredLines removedCount =
     (let trimmedLine = trim line in
      if blocksWebsite cleanUrl trimmedLine then
        filterLines cleanUrl lines filteredLines (removedCount + 1)
      else if deepComment trimmedLine then
        filterLines cleanUrl lines filteredLines removedCount
      else filterLines cleanUrl lines (filteredLines @ [line]) removedCount)"

definition timerActiveMessage :: "string \<Rightarrow> string \<Rightarrow> string" where
  "timerActiveMessage cleanUrl remaining =
     ''Cannot unblock '' @ quoted cleanUrl @ '' - Student mode is active! Time remaining: ''
       @ remaining @ ''. The website will automatically unblock when the timer expires.''"

definition notFoundMessage :: "string \<Rightarrow> string" where
  "notFoundMessage cleanUrl =
     ''Website '' @ quoted cleanUrl @ '' was not found in the hosts file or was already unblocked''"

definition unblockWebsite :: "world \<Rightarrow> string \<Rightarrow> (error + string) \<times> world" where
  "unblockWebsite w url =
     (if \<not> isRunningAsAdmin w then
        (Inl (Error ''Administrator privileges required to unblock websites''), w)
      else let cleanUrl = cleanUrlOf url in
        if cleanUrl = [] then (Inl (Error ''Invalid website URL format''), w)
        else
          (case mapGet (studentModeTimers w) cleanUrl of
             Some td \<Rightarrow>
               (Inl (Error (timerActiveMessage cleanUrl (formatTimeRemaining (endTime td - clock w)))), w)
           | None \<Rightarrow>
               (case readFileSync w of
                  (Inl m, w1) \<Rightarrow>
                    (Inl (Error ''Could not read hosts file. Make sure the application is running as administrator.''), w1)
                | (Inr hostsContent, w1) \<Rightarrow>
                    (case filterLines cleanUrl (split nl hostsContent) [] 0 of
                       (filteredLines, removedCount) \<Rightarrow>
                         if removedCount = 0 then (Inr (notFoundMessage cleanUrl), w1)
                         else
                           (case writeFileSync w1 (join [nl] filteredLines) of
                              (Inl m, w2) \<Rightarrow>
                                (Inl (Error (''Failed to modify hosts file: '' @ m
                                   @ ''. Make sure the application is running as administrator.'')), w2)
                            | (Inr u, w2) \<Rightarrow>
                                (Inr (''Website '' @ quoted cleanUrl @ '' has been unblocked. Removed ''
                                   @ showNat removedCount @ '' entries from hosts file.''),
                                 exec w2 ''ipconfig /flushdns''))))))"

subsection \<open>Student mode\<close>

text \<open>
  \<^verbatim>\<open>durations[duration] || 0\<close>, with the name looked up among the six properties that the
  table defines. (The lookup of the source also sees the properties that every object
  inherits, such as \<^verbatim>\<open>toString\<close>, whose values are no numbers; the theorems that follow
  name the durations they are about, and none of them is about such a name.)
\<close>

definition parseDuration :: "string \<Rightarrow> int" where
  "parseDuration d =
     (if d = ''10sec'' then 10 * 1000
      else if d = ''12hr'' then 12 * 60 * 60 * 1000
      else if d = ''1d'' then 24 * 60 * 60 * 1000
      else if d = ''2d'' then 2 * 24 * 60 * 60 * 1000
      else if d = ''3d'' then 3 * 24 * 60 * 60 * 1000
      else if d = ''7d'' then 7 * 24 * 60 * 60 * 1000
      else 0)"

definition blockWebsiteStudentMode ::
  "world \<Rightarrow> string \<Rightarrow> string \<Rightarrow> (error + studentModeResult) \<times> world" where
  "blockWebsiteStudentMode w url dur =
     (if \<not> isRunningAsAdmin w then
        (Inl (Error ''Administrator privileges required to block websites in student mode''), w)
      else let durationMs = parseDuration dur in
        if durationMs = 0 then (Inl (Error ''Invalid duration specified''), w)
        else
          (case blockWebsiteDeep w url of
             (Inl (Error m), w1) \<Rightarrow>
               (Inl (Error (''Failed to block website in student mode: '' @ m)), w1)
           | (Inr deepBlockResult, w1) \<Rightarrow>
               let endT = clock w1 + durationMs;
                   h = nextHandle w1;
                   td = \<lparr>websiteUrl = url, duration = dur, endTime = endT,
                         startTime = clock w1, timeoutId = Some h\<rparr>
               in (Inr \<lparr>smMessage = ''Website '' @ quoted url @ '' blocked in student mode for '' @ dur,
                         smEndTime = endT, smDuration = dur\<rparr>,
                   w1\<lparr>studentModeTimers := mapSet (studentModeTimers w1) url td,
                      timeouts := timeouts w1 @ [(h, clock w1 + durationMs, url)],
                      nextHandle := Suc h\<rparr>)))"

text \<open>
  The callback given to \<^verbatim>\<open>setTimeout\<close>: unblock, delete the registry entry, notify every
  window; an error of \<^verbatim>\<open>unblockWebsite\<close> is caught and logged, and skips the rest.
\<close>

definition expiryCallback :: "world \<Rightarrow> string \<Rightarrow> world" where
  "expiryCallback w url =
     (case unblockWebsite w url of
        (Inl e, w1) \<Rightarrow> w1
      | (Inr r, w1) \<Rightarrow>
          w1\<lparr>studentModeTimers := mapDelete (studentModeTimers w1) url,
             sent := sent w1 @ map (\<lambda>window. (window, ''student-mode-timer-expired'', url)) (windows w1)\<rparr>)"

text \<open>The event loop runs the pending timeout with handle \<open>h\<close>.\<close>

definition fireTimeout :: "world \<Rightarrow> nat \<Rightarrow> world" where
  "fireTimeout w h =
     (case find (\<lambda>(h', due, url). h' = h) (timeouts w) of
        None \<Rightarrow> w
      | Some (h', due, url) \<Rightarrow> expiryCallback (clearTimeout w h) url)"

text \<open>
  Time passes: the timeouts that fall due within the next \<open>ms\<close> milliseconds run in the
  order of their due times (the older one first when two are due together), each with the
  clock at its due time; then the clock stands at \<open>ms\<close> after the start. The callbacks
  neither set nor clear a timeout, so the timeouts due are those that were pending.
\<close>

definition runTimeout :: "world \<Rightarrow> nat \<times> int \<times> string \<Rightarrow> world" where
  "runTimeout w t = (case t of (h, due, url) \<Rightarrow> fireTimeout (w\<lparr>clock := max (clock w) due\<rparr>) h)"

definition elapse :: "world \<Rightarrow> int \<Rightarrow> world" where
  "elapse w ms =
     (let due = filter (\<lambda>(h, due, url). due \<le> clock w + ms) (timeouts w)
      in (foldl runTimeout w (sort_key (\<lambda>(h, due, url). due) due))\<lparr>clock := clock w + ms\<rparr>)"

text \<open>The loop of \<^verbatim>\<open>getStudentModeStatus\<close> over the entries of the registry.\<close>

definition timerSnapshot :: "string \<Rightarrow> timerData \<Rightarrow> int \<Rightarrow> activeTimer" where
  "timerSnapshot url td remaining =
     \<lparr>atWebsiteUrl = url, atDuration = duration td, atStartTime = startTime td,
      atEndTime = endTime td, remainingMs = remaining,
      remainingFormatted = formatTimeRemaining remaining\<rparr>"

fun statusLoop ::
  "int \<Rightarrow> (string \<times> timerData) list \<Rightarrow> activeTimer list \<Rightarrow> world \<Rightarrow> activeTimer list \<times> world" where
  "statusLoop currentTime [] activeTimers w = (activeTimers, w)"
| "statusLoop currentTime ((url, td) # entries) activeTimers w =
     (let remaining = endTime td - currentTime in
      if remaining > 0 then
        statusLoop currentTime entries (activeTimers @ [timerSnapshot url td remaining]) w
      else
        let w1 = (case timeoutId td of None \<Rightarrow> w | Some h \<Rightarrow> clearTimeout w h)
        in statusLoop currentTime entries activeTimers
             (w1\<lparr>studentModeTimers := mapDelete (studentModeTimers w1) url\<rparr>))"

definition getStudentModeStatus :: "world \<Rightarrow> (activeTimer list \<times> nat) \<times> world" where
  "getStudentModeStatus w =
     (case statusLoop (clock w) (studentModeTimers w) [] w of
        (activeTimers, w1) \<Rightarrow> ((activeTimers, length activeTimers), w1))"


subsection \<open>The remaining-time string of the specification\<close>

text \<open>
  The specification gives the string as \<^verbatim>\<open>"{d}d {h}h {m}m {s}s"\<close> with the leading zero
  units dropped. \<open>remainingTextSpec\<close> follows these words, for a remaining time of \<open>ms\<close>
  milliseconds: the units are days, hours of the day, minutes of the hour and seconds of
  the minute, and the seconds are always shown.
\<close>

definition remainingTextSpec :: "int \<Rightarrow> string" where
  "remainingTextSpec ms =
     (let s = ms div 1000;
          units = [(s div 86400, ''d''), (s div 3600 mod 24, ''h''), (s div 60 mod 60, ''m'')]
      in join '' '' (map (\<lambda>(n, u). showInt n @ u)
                       (dropWhile (\<lambda>(n, u). n = 0) units @ [(s mod 60, ''s'')])))"

section \<open>Prefetch analysis (main.js)\<close>

subsection \<open>Dates\<close>

text \<open>
  A \<^verbatim>\<open>Date\<close> is its time value, the milliseconds since 1970-01-01 UTC.
  \<^verbatim>\<open>getFullYear\<close> is the year of the local time: the ECMAScript \<open>YearFromTime\<close> of the
  time value shifted by the offset of the local time zone, which is a parameter.
\<close>

definition DayFromYear :: "int \<Rightarrow> int" where
  "DayFromYear y = 365 * (y - 1970) + (y - 1969) div 4 - (y - 1901) div 100 + (y - 1601) div 400"

lemma div_succ_cases:
  fixes x k :: int
  assumes "0 < k"
  shows "(x + 1) div k = x div k \<or> (x + 1) div k = x div k + 1"
proof -
  have lo: "x div k \<le> (x + 1) div k"
    using assms by (intro zdiv_mono1) simp_all
  have "(x + 1) div k \<le> (x + k) div k"
    using assms by (intro zdiv_mono1) simp_all
  also have "\<dots> = x div k + 1"
    using assms div_add_self2 [of k x] by simp
  finally have hi: "(x + 1) div k \<le> x div k + 1" .
  define a where "a = (x + 1) div k"
  define b where "b = x div k"
  from lo hi have "b \<le> a" "a \<le> b + 1" by (simp_all add: a_def b_def)
  then have "a = b \<or> a = b + 1" by arith
  then show ?thesis by (simp add: a_def b_def)
qed

lemma div_succ_nested:
  fixes x :: int
  assumes "0 < k" "0 < m" "(x + 1) div k = x div k"
  shows "(x + 1) div (k * m) = x div (k * m)"
  using assms by (simp add: zdiv_zmult2_eq)

lemma leap_abstract:
  fixes a a' b b' c c' :: int
  assumes "a' = a \<or> a' = a + 1" "b' = b \<or> b' = b + 1" "c' = c \<or> c' = c + 1"
    and "a' = a \<Longrightarrow> b' = b" "b' = b \<Longrightarrow> c' = c"
  shows "a - b + c \<le> a' - b' + c' \<and> a' - b' + c' \<le> a - b + c + 1"
  using assms by auto

lemma leap_step:
  fixes z :: int
  shows "z div 4 - z div 100 + z div 400 \<le> (z + 1) div 4 - (z + 1) div 100 + (z + 1) div 400
       \<and> (z + 1) div 4 - (z + 1) div 100 + (z + 1) div 400 \<le> z div 4 - z div 100 + z div 400 + 1"
proof (rule leap_abstract)
  show "(z + 1) div 4 = z div 4 \<or> (z + 1) div 4 = z div 4 + 1"
    by (rule div_succ_cases) simp
  show "(z + 1) div 100 = z div 100 \<or> (z + 1) div 100 = z div 100 + 1"
    by (rule div_succ_cases) simp
  show "(z + 1) div 400 = z div 400 \<or> (z + 1) div 400 = z div 400 + 1"
    by (rule div_succ_cases) simp
  show "(z + 1) div 4 = z div 4 \<Longrightarrow> (z + 1) div 100 = z div 100"
    using div_succ_nested [of 4 25 z] by simp
  show "(z + 1) div 100 = z div 100 \<Longrightarrow> (z + 1) div 400 = z div 400"
    using div_succ_nested [of 100 4 z] by simp
qed

lemma DayFromYear_alt:
  "DayFromYear y = 365 * (y - 1970) + ((y - 1601) div 4 - (y - 1601) div 100 + (y - 1601) div 400) - 89"
proof -
  have "(y - 1601) div 4 = (y - 1969 + 4 * 92) div 4" by simp
  also have "\<dots> = (y - 1969) div 4 + 92"
    by (simp only: div_mult_self2 [of 4 "y - 1969" 92])
  finally have a: "(y - 1601) div 4 = (y - 1969) div 4 + 92" .
  have "(y - 1601) div 100 = (y - 1901 + 100 * 3) div 100" by simp
  also have "\<dots> = (y - 1901) div 100 + 3"
    by (simp only: div_mult_self2 [of 100 "y - 1901" 3])
  finally have b: "(y - 1601) div 100 = (y - 1901) div 100 + 3" .
  show ?thesis unfolding DayFromYear_def a b by simp
qed

lemma DayFromYear_bounds:
  "DayFromYear y + 365 \<le> DayFromYear (y + 1) \<and> DayFromYear (y + 1) \<le> DayFromYear y + 366"
proof -
  have e: "y + 1 - 1601 = (y - 1601) + 1" by simp
  define g where "g = (\<lambda>z::int. z div 4 - z div 100 + z div 400)"
  have "g (y - 1601) \<le> g (y - 1601 + 1) \<and> g (y - 1601 + 1) \<le> g (y - 1601) + 1"
    unfolding g_def using leap_step [of "y - 1601"] by blast
  moreover have "DayFromYear y = 365 * (y - 1970) + g (y - 1601) - 89"
    unfolding g_def by (rule DayFromYear_alt)
  moreover have "DayFromYear (y + 1) = 365 * (y + 1 - 1970) + g (y - 1601 + 1) - 89"
    unfolding g_def using DayFromYear_alt [of "y + 1"] by (simp only: e)
  ultimately show ?thesis by simp
qed

text \<open>The largest year whose first day is not after day \<open>d\<close>, searched upwards from \<open>y\<close>.\<close>

function yearSearch :: "int \<Rightarrow> int \<Rightarrow> int" where
  "yearSearch d y = (if DayFromYear (y + 1) \<le> d then yearSearch d (y + 1) else y)"
  by pat_completeness auto
termination
proof (relation "measure (\<lambda>(d, y). nat (d - DayFromYear y))")
  show "wf (measure (\<lambda>(d, y). nat (d - DayFromYear y)))" by simp
next
  fix d y assume "DayFromYear (y + 1) \<le> d"
  then show "((d, y + 1), (d, y)) \<in> measure (\<lambda>(d, y). nat (d - DayFromYear y))"
    using DayFromYear_bounds [of y] by simp
qed

declare yearSearch.simps [simp del]

definition YearFromTime :: "int \<Rightarrow> int" where
  "YearFromTime t =
     (let d = t div 86400000
      in yearSearch d (1970 + (if 0 \<le> d then d div 366 else d div 365)))"

definition getFullYear :: "(int \<Rightarrow> int) \<Rightarrow> int \<Rightarrow> int" where
  "getFullYear localTZA t = YearFromTime (t + localTZA t)"

subsection \<open>windowsFileTimeToDate\<close>

definition windowsEpochDiff :: int where
  "windowsEpochDiff = 11644473600000"

text \<open>Division of \<^verbatim>\<open>BigInt\<close>s truncates towards zero.\<close>

definition bigintDiv :: "int \<Rightarrow> int \<Rightarrow> int" where
  "bigintDiv a b = sgn a * sgn b * (\<bar>a\<bar> div \<bar>b\<bar>)"

text \<open>A \<^verbatim>\<open>Date\<close> beyond 8.64e15 ms is invalid: its \<^verbatim>\<open>getTime()\<close> is \<^verbatim>\<open>NaN\<close>.\<close>

definition maxTimeValue :: int where
  "maxTimeValue = 8640000000000000"

definition windowsFileTimeToDate :: "(int \<Rightarrow> int) \<Rightarrow> int \<Rightarrow> int option" where
  "windowsFileTimeToDate localTZA filetime =
     (let milliseconds = bigintDiv filetime 10000 in
      if milliseconds < windowsEpochDiff then None
      else let unixMilliseconds = milliseconds - windowsEpochDiff in
        if maxTimeValue < unixMilliseconds
           \<or> getFullYear localTZA unixMilliseconds < 1970
           \<or> getFullYear localTZA unixMilliseconds > 2050
        then None
        else Some unixMilliseconds)"

subsection \<open>Reading the buffer\<close>

text \<open>
  A byte of the buffer is a number from 0 to 255 (the readers take list elements modulo
  256); the numbers read from the buffer are JavaScript numbers and \<^verbatim>\<open>BigInt\<close>s with
  integer values, modelled as integers.
\<close>

type_synonym byte = int

fun littleEndian :: "byte list \<Rightarrow> int" where
  "littleEndian [] = 0"
| "littleEndian (b # bs) = b mod 256 + 256 * littleEndian bs"

text \<open>The \<^verbatim>\<open>DataView\<close> getters throw a \<^verbatim>\<open>RangeError\<close> outside the buffer: \<open>None\<close>.\<close>

definition getUint32 :: "byte list \<Rightarrow> nat \<Rightarrow> int option" where
  "getUint32 buffer offset =
     (if offset + 4 \<le> length buffer then Some (littleEndian (take 4 (drop offset buffer))) else None)"

definition getBigUint64 :: "byte list \<Rightarrow> nat \<Rightarrow> int option" where
  "getBigUint64 buffer offset =
     (if offset + 8 \<le> length buffer then Some (littleEndian (take 8 (drop offset buffer))) else None)"

subsection \<open>Records\<close>

record fileStats =
  mtime :: "int option"
  birthtime :: "int option"

record volume =
  volumePath :: string
  volumeSerial :: string
  creationTime :: "int option"

record prefetchRecord =
  executableName :: string
  runCount :: int
  lastRunTimes :: "int list"
  filePaths :: "string list"
  volumeInfo :: "volume list"
  fileSize :: nat
  prefetchPath :: string
  hash :: string
  fileCreated :: "int option"
  fileModified :: "int option"
  version :: int
  isCurrentlyRunning :: bool

text \<open>
  What the parser takes from its surroundings: the current time of \<^verbatim>\<open>new Date()\<close>, the
  offset of the local time zone, the answer of \<^verbatim>\<open>isProcessRunning\<close> (which never
  rejects), and the matches of the path pattern in the UTF-16 decoding of the buffer
  (the regular-expression engine is not modelled).
\<close>

record prefetchEnv =
  now :: int
  localTZA :: "int \<Rightarrow> int"
  isProcessRunning :: "string \<Rightarrow> bool"
  pathMatches :: "byte list \<Rightarrow> string list"

subsection \<open>File name patterns\<close>

definition isHex :: "char \<Rightarrow> bool" where
  "isHex c = ((48 \<le> code c \<and> code c \<le> 57) \<or> (65 \<le> code c \<and> code c \<le> 70)
              \<or> (97 \<le> code c \<and> code c \<le> 102))"

definition lineTerminator :: "char \<Rightarrow> bool" where
  "lineTerminator c = (code c = 10 \<or> code c = 13)"

text \<open>\<^verbatim>\<open>/-([A-F0-9]{8})\.pf$/i\<close>: the captured group, if the name ends so.\<close>

definition hashMatch :: "string \<Rightarrow> string option" where
  "hashMatch filename =
     (let n = length filename; t = drop (n - 12) filename in
      if 12 \<le> n \<and> take 1 t = ''-'' \<and> list_all isHex (take 8 (drop 1 t))
         \<and> toLowerCase (drop 9 t) = ''.pf''
      then Some (take 8 (drop 1 t)) else None)"

text \<open>\<^verbatim>\<open>/^(.+?)-[A-F0-9]{8}\.pf$/i\<close>: the group is all that precedes the 12 last characters.\<close>

definition execMatch :: "string \<Rightarrow> string option" where
  "execMatch filename =
     (let n = length filename; stem = take (n - 12) filename in
      if hashMatch filename \<noteq> None \<and> stem \<noteq> [] \<and> \<not> list_ex lineTerminator stem
      then Some stem else None)"

text \<open>\<^verbatim>\<open>filename.replace(/\.pf$/i, '')\<close>.\<close>

definition dropPf :: "string \<Rightarrow> string" where
  "dropPf filename =
     (let n = length filename in
      if 3 \<le> n \<and> toLowerCase (drop (n - 3) filename) = ''.pf'' then take (n - 3) filename
      else filename)"

definition isWordChar :: "char \<Rightarrow> bool" where
  "isWordChar c = ((48 \<le> code c \<and> code c \<le> 57) \<or> (65 \<le> code c \<and> code c \<le> 90)
                   \<or> (97 \<le> code c \<and> code c \<le> 122) \<or> code c = 95)"

text \<open>\<^verbatim>\<open>.replace(/\b\w/g, l => l.toUpperCase())\<close>; the flag says whether a word character precedes.\<close>

fun titleCase :: "bool \<Rightarrow> string \<Rightarrow> string" where
  "titleCase inWord [] = []"
| "titleCase inWord (c # cs) =
     (if isWordChar c \<and> \<not> inWord then toUpperChar c else c) # titleCase (isWordChar c) cs"

definition formatExecutableName :: "string \<Rightarrow> string" where
  "formatExecutableName name =
     (let lower = toLowerCase name;
          n = length lower;
          noExe = (if 4 \<le> n \<and> drop (n - 4) lower = ''.exe'' then take (n - 4) lower else lower);
          spaced = map (\<lambda>c. if c = CHR ''-'' \<or> c = CHR ''_'' then CHR '' '' else c) noExe
      in trim (titleCase False spaced))"

subsection \<open>extractVolumeSerial\<close>

text \<open>\<^verbatim>\<open>value.toString(16).toUpperCase()\<close> for a number that is not negative.\<close>

function toHex :: "int \<Rightarrow> string" where
  "toHex n =
     (if n < 16 then [if n mod 16 < 10 then char_of (48 + n mod 16) else char_of (55 + n mod 16)]
      else toHex (n div 16) @ [if n mod 16 < 10 then char_of (48 + n mod 16) else char_of (55 + n mod 16)])"
  by pat_completeness auto
termination
  by (relation "measure nat") auto

declare toHex.simps [simp del]

definition padStart8 :: "string \<Rightarrow> string" where
  "padStart8 s = replicate (8 - length s) CHR ''0'' @ s"

text \<open>
  The loop \<^verbatim>\<open>for (i = 0; i < Math.min(buffer.length - 4, 200); i += 4)\<close>, from index
  \<open>i\<close> on; a throwing read is caught and gives null.
\<close>

function scanSerial :: "byte list \<Rightarrow> nat \<Rightarrow> string option" where
  "scanSerial buffer i =
     (if i + 4 < length buffer \<and> i < 200 then
        (case getUint32 buffer i of
           None \<Rightarrow> None
         | Some v \<Rightarrow>
             if 0x10000000 < v \<and> v < 0xFFFFFFFF then Some (padStart8 (toHex v))
             else scanSerial buffer (i + 4))
      else None)"
  by pat_completeness auto
termination
  by (relation "measure (\<lambda>(buffer, i). 200 - i)") auto

declare scanSerial.simps [simp del]

definition extractVolumeSerial :: "byte list \<Rightarrow> string option" where
  "extractVolumeSerial buffer = scanSerial buffer 0"

subsection \<open>parsePrefetchFileBuffer\<close>

text \<open>One time stamp: \<open>None\<close> when the read throws or the value is dropped.\<close>

definition readRunTime :: "prefetchEnv \<Rightarrow> byte list \<Rightarrow> nat \<Rightarrow> int option" where
  "readRunTime env buffer offset =
     (case getBigUint64 buffer offset of
        None \<Rightarrow> None
      | Some timestamp \<Rightarrow>
          if timestamp > 0 then
            (case windowsFileTimeToDate (localTZA env) timestamp of
               None \<Rightarrow> None
             | Some jsDate \<Rightarrow> if getFullYear (localTZA env) jsDate > 1970 then Some jsDate else None)
          else None)"

text \<open>The loop \<^verbatim>\<open>for (i = 0; i < timestampCount; i++)\<close>, from index \<open>i\<close> on.\<close>

function runTimesLoop :: "prefetchEnv \<Rightarrow> byte list \<Rightarrow> nat \<Rightarrow> nat \<Rightarrow> int list" where
  "runTimesLoop env buffer timestampCount i =
     (if i < timestampCount then
        (let offset = 0x80 + i * 8;
             found = (if offset + 8 \<le> length buffer then readRunTime env buffer offset else None)
         in (case found of None \<Rightarrow> [] | Some jsDate \<Rightarrow> [jsDate])
              @ runTimesLoop env buffer timestampCount (i + 1))
      else [])"
  by pat_completeness auto
termination
  by (relation "measure (\<lambda>(env, buffer, timestampCount, i). timestampCount - i)") auto

declare runTimesLoop.simps [simp del]

definition readLastRunTimes :: "prefetchEnv \<Rightarrow> byte list \<Rightarrow> int \<Rightarrow> int \<Rightarrow> int list" where
  "readLastRunTimes env buffer ver count =
     (if ver \<ge> 26 then runTimesLoop env buffer (nat (min 8 count)) 0
      else (case readRunTime env buffer 0x80 of None \<Rightarrow> [] | Some jsDate \<Rightarrow> [jsDate]))"

definition system32 :: "string \<Rightarrow> string" where
  "system32 file = ''C:'' @ [bsl] @ ''Windows'' @ [bsl] @ ''System32'' @ [bsl] @ file"

definition commonPaths :: "string \<Rightarrow> string list" where
  "commonPaths exe =
     [''C:'' @ [bsl] @ ''Program Files'' @ [bsl] @ exe @ [bsl] @ exe @ ''.exe'',
      ''C:'' @ [bsl] @ ''Program Files (x86)'' @ [bsl] @ exe @ [bsl] @ exe @ ''.exe'',
      system32 (exe @ ''.exe''),
      system32 ''kernel32.dll'',
      system32 ''ntdll.dll'',
      system32 ''user32.dll'']"

text \<open>\<^verbatim>\<open>[...new Set(xs)]\<close>: the first occurrence of each element, in order.\<close>

fun dedupe :: "string list \<Rightarrow> string list" where
  "dedupe [] = []"
| "dedupe (x # xs) = x # dedupe (filter (\<lambda>y. y \<noteq> x) xs)"

definition orElse :: "'a option \<Rightarrow> 'a option \<Rightarrow> 'a option" where
  "orElse a b = (case a of None \<Rightarrow> b | Some x \<Rightarrow> Some x)"

definition mtimeOrNow :: "prefetchEnv \<Rightarrow> fileStats \<Rightarrow> int" where
  "mtimeOrNow env st = (case mtime st of None \<Rightarrow> now env | Some t \<Rightarrow> t)"

text \<open>
  The inner \<^verbatim>\<open>try\<close> block: run count, run times, paths and volume; \<open>None\<close> when it throws,
  which only the read of the run count can do.
\<close>

definition parseStructure ::
  "prefetchEnv \<Rightarrow> byte list \<Rightarrow> string \<Rightarrow> fileStats \<Rightarrow> int
     \<Rightarrow> (int \<times> int list \<times> string list \<times> volume list) option" where
  "parseStructure env buffer exe st ver =
     (case getUint32 buffer (if ver \<ge> 26 then 0xD0 else 0x90) of
        None \<Rightarrow> None
      | Some rawCount \<Rightarrow>
          let runTimes = readLastRunTimes env buffer ver rawCount;
              matches = pathMatches env buffer;
              paths = (if matches \<noteq> [] then dedupe matches else commonPaths exe);
              vols = [\<lparr>volumePath = ''C:'' @ [bsl],
                       volumeSerial = (case extractVolumeSerial buffer of None \<Rightarrow> ''Unknown'' | Some v \<Rightarrow> v),
                       creationTime = orElse (birthtime st) (mtime st)\<rparr>];
              runTimes' = (if runTimes = [] then [mtimeOrNow env st] else runTimes);
              count = (if rawCount \<le> 0 \<or> rawCount > 10000
                       then (if length runTimes' = 0 then 1 else int (length runTimes')) else rawCount)
          in Some (count, runTimes', paths, vols))"

definition parsePrefetchFileBuffer ::
  "prefetchEnv \<Rightarrow> byte list \<Rightarrow> string \<Rightarrow> fileStats \<Rightarrow> prefetchRecord option" where
  "parsePrefetchFileBuffer env buffer filename st =
     (case getUint32 buffer 0 of
        None \<Rightarrow> None
      | Some ver \<Rightarrow>
          let exe = (case execMatch filename of Some stem \<Rightarrow> stem | None \<Rightarrow> dropPf filename);
              parsed =
                (case parseStructure env buffer exe st ver of
                   Some r \<Rightarrow> r
                 | None \<Rightarrow>
                     (1, [mtimeOrNow env st], [system32 (exe @ ''.exe'')],
                      [\<lparr>volumePath = ''C:'' @ [bsl], volumeSerial = ''Unknown'',
                        creationTime = orElse (birthtime st) (mtime st)\<rparr>]))
          in (case parsed of (count, runTimes, paths, vols) \<Rightarrow>
                Some \<lparr>executableName = formatExecutableName exe,
                      runCount = count,
                      lastRunTimes = sort_key (\<lambda>t. - t) runTimes,
                      filePaths = take 20 paths,
                      volumeInfo = vols,
                      fileSize = length buffer,
                      prefetchPath = filename,
                      hash = (case hashMatch filename of Some h \<Rightarrow> h | None \<Rightarrow> ''Unknown''),
                      fileCreated = orElse (birthtime st) (mtime st),
                      fileModified = mtime st,
                      version = ver,
                      isCurrentlyRunning = isProcessRunning env exe\<rparr>))"

subsection \<open>getPrefetchFiles\<close>

text \<open>
  A file of the directory: \<open>stats\<close> is \<open>None\<close> when \<^verbatim>\<open>statSync\<close> throws, \<open>content\<close> when
  \<^verbatim>\<open>readFileSync\<close> does.
\<close>

record dirEntry =
  fileName :: string
  stats :: "fileStats option"
  content :: "byte list option"

datatype directory =
  Missing
  | Unreadable string string
  | Listing "dirEntry list"

record prefetchResult =
  success :: bool
  resultData :: "prefetchRecord list option"
  resultError :: "string option"
  resultMessage :: "string option"
  totalFiles :: "nat option"
  processedFiles :: "nat option"
  requiresAdmin :: bool

text \<open>\<^verbatim>\<open>Math.max(...xs)\<close>; \<open>None\<close> is \<^verbatim>\<open>-Infinity\<close>, the value for no argument.\<close>

definition mathMax :: "int list \<Rightarrow> int option" where
  "mathMax xs = (case xs of [] \<Rightarrow> None | x # rest \<Rightarrow> Some (fold max rest x))"

definition latest :: "prefetchRecord \<Rightarrow> int option" where
  "latest r = mathMax (lastRunTimes r)"

text \<open>
  \<open>keepsBefore a b\<close>: the comparator \<^verbatim>\<open>(a, b) => bLatest - aLatest\<close> is not positive at
  \<open>(a, b)\<close>, so the stable sort leaves \<open>a\<close> before \<open>b\<close>.
\<close>

definition keepsBefore :: "prefetchRecord \<Rightarrow> prefetchRecord \<Rightarrow> bool" where
  "keepsBefore a b =
     (case (latest a, latest b) of
        (x, None) \<Rightarrow> True
      | (None, Some y) \<Rightarrow> False
      | (Some x, Some y) \<Rightarrow> y \<le> x)"

fun insertRecord :: "prefetchRecord \<Rightarrow> prefetchRecord list \<Rightarrow> prefetchRecord list" where
  "insertRecord r [] = [r]"
| "insertRecord r (x # xs) = (if keepsBefore x r then x # insertRecord r xs else r # x # xs)"

text \<open>\<^verbatim>\<open>Array.prototype.sort\<close> is stable: equal elements keep their order.\<close>

definition sortByLatest :: "prefetchRecord list \<Rightarrow> prefetchRecord list" where
  "sortByLatest rs = foldl (\<lambda>acc r. insertRecord r acc) [] rs"

text \<open>What one file contributes: nothing when a call throws or the parser returns null.\<close>

definition processFile :: "prefetchEnv \<Rightarrow> dirEntry \<Rightarrow> prefetchRecord option" where
  "processFile env f =
     (case stats f of
        None \<Rightarrow> None
      | Some st \<Rightarrow>
          (case content f of
             None \<Rightarrow> None
           | Some buffer \<Rightarrow> parsePrefetchFileBuffer env buffer (fileName f) st))"

fun processFiles ::
  "prefetchEnv \<Rightarrow> dirEntry list \<Rightarrow> prefetchRecord list \<Rightarrow> nat \<Rightarrow> prefetchRecord list \<times> nat" where
  "processFiles env [] prefetchData processedCount = (prefetchData, processedCount)"
| "processFiles env (f # files) prefetchData processedCount =
     (case stats f of
        None \<Rightarrow> processFiles env files prefetchData processedCount
      | Some st \<Rightarrow>
          (case content f of
             None \<Rightarrow> processFiles env files prefetchData processedCount
           | Some buffer \<Rightarrow>
               (case parsePrefetchFileBuffer env buffer (fileName f) st of
                  None \<Rightarrow>
                    if processedCount \<ge> 100 then (prefetchData, processedCount)
                    else processFiles env files prefetchData processedCount
                | Some parsedData \<Rightarrow>
                    if processedCount + 1 \<ge> 100 then (prefetchData @ [parsedData], processedCount + 1)
                    else processFiles env files (prefetchData @ [parsedData]) (processedCount + 1))))"

definition isPf :: "string \<Rightarrow> bool" where
  "isPf file = suffix ''.pf'' (toLowerCase file)"

definition getPrefetchFiles :: "prefetchEnv \<Rightarrow> directory \<Rightarrow> prefetchResult" where
  "getPrefetchFiles env dir =
     (case dir of
        Missing \<Rightarrow>
          \<lparr>success = False, resultData = None,
           resultError = Some ''Prefetch directory not found. This system may not have prefetch enabled.'',
           resultMessage = None, totalFiles = None, processedFiles = None, requiresAdmin = False\<rparr>
      | Unreadable errCode msg \<Rightarrow>
          (if errCode = ''EACCES'' \<or> errCode = ''EPERM'' then
             \<lparr>success = False, resultData = None,
              resultError = Some ''Access denied to prefetch directory. Administrator privileges may be required.'',
              resultMessage = None, totalFiles = None, processedFiles = None, requiresAdmin = True\<rparr>
           else
             \<lparr>success = False, resultData = None,
              resultError = Some (''Failed to analyze prefetch files: '' @ msg),
              resultMessage = None, totalFiles = None, processedFiles = None, requiresAdmin = False\<rparr>)
      | Listing entries \<Rightarrow>
          let files = filter (\<lambda>f. isPf (fileName f)) entries in
          if length files = 0 then
            \<lparr>success = True, resultData = Some [], resultError = None,
             resultMessage = Some ''No prefetch files found in directory.'',
             totalFiles = None, processedFiles = None, requiresAdmin = False\<rparr>
          else
            (case processFiles env files [] 0 of
               (prefetchData, processedCount) \<Rightarrow>
                 \<lparr>success = True, resultData = Some (sortByLatest prefetchData), resultError = None,
                  resultMessage = None, totalFiles = Some (length files),
                  processedFiles = Some processedCount, requiresAdmin = False\<rparr>))"

subsection \<open>Two time zones\<close>

definition utc :: "int \<Rightarrow> int" where
  "utc t = 0"

definition centralEuropeanTime :: "int \<Rightarrow> int" where
  "centralEuropeanTime t = 3600000"

subsection \<open>Sample worlds\<close>

text \<open>An elevated session with an empty hosts file, no timers and two windows.\<close>

definition adminWorld :: world where
  "adminWorld =
     \<lparr>isRunningAsAdmin = True, clock = 1000000, hostsFile = [], fsOutcomes = [],
      execOutcomes = [], execLog = [], studentModeTimers = [], timeouts = [],
      nextHandle = 0, windows = [1, 2], sent = []\<rparr>"

definition afterTimedBlock :: world where
  "afterTimedBlock = snd (blockWebsiteStudentMode adminWorld ''y.com'' ''10sec'')"

definition afterRawUrlBlock :: world where
  "afterRawUrlBlock = snd (blockWebsiteStudentMode adminWorld ''https://www.example.com/x'' ''1d'')"

definition blockedTwice :: world where
  "blockedTwice =
     snd (blockWebsiteStudentMode
            (snd (blockWebsiteStudentMode adminWorld ''example.com'' ''1d'')) ''example.com'' ''10sec'')"

text \<open>An entry of the registry whose end time has passed at time \<open>t\<close>.\<close>

definition expiredAt :: "int \<Rightarrow> string \<times> timerData \<Rightarrow> bool" where
  "expiredAt t e = (endTime (snd e) \<le> t)"


text \<open>A registry with one timer that ran out unnoticed and one that is running.\<close>

definition staleWorld :: world where
  "staleWorld =
     adminWorld\<lparr>studentModeTimers :=
                  [(''old.com'', \<lparr>websiteUrl = ''old.com'', duration = ''10sec'', endTime = 510000,
                                  startTime = 500000, timeoutId = Some 0\<rparr>),
                   (''new.com'', \<lparr>websiteUrl = ''new.com'', duration = ''1d'', endTime = 87300000,
                                  startTime = 900000, timeoutId = Some 1\<rparr>)],
                timeouts := [(0, 510000, ''old.com''), (1, 87300000, ''new.com'')],
                nextHandle := 2\<rparr>"



text \<open>
  The elevated session where the read of the hosts file by the deep block fails, after the
  read and the write of the basic block went through, and where every DNS command but
  the first fails.
\<close>

definition deepReadFails :: world where
  "deepReadFails =
     adminWorld\<lparr>fsOutcomes := [None, None, Some ''EBUSY: resource busy or locked''],
                execOutcomes := [None, Some ''Command failed'', Some ''Command failed'',
                                 Some ''Command failed'', Some ''Command failed'']\<rparr>"

text \<open>
  The elevated session where every DNS command of the deep block fails (the flush of the
  basic block goes through); and two sessions whose hosts file binds \<open>x.com\<close> to
  \<open>127.0.0.1\<close> and nothing else, one where the third call on the hosts file fails.
\<close>

definition dnsFails :: world where
  "dnsFails =
     adminWorld\<lparr>execOutcomes := [None, Some ''Command failed'', Some ''Command failed'',
                                 Some ''Command failed'', Some ''Command failed'']\<rparr>"

definition deepWriteFails :: world where
  "deepWriteFails =
     adminWorld\<lparr>hostsFile := ''127.0.0.1 x.com'' @ [nl],
                fsOutcomes := [None, None, Some ''EPERM: operation not permitted'']\<rparr>"

definition deepWriteWorks :: world where
  "deepWriteWorks = adminWorld\<lparr>hostsFile := ''127.0.0.1 x.com'' @ [nl]\<rparr>"



text \<open>The hosts file after \<^verbatim>\<open>blockWebsite\<close> has appended its entries to \<open>h\<close>.\<close>

definition blockedContent :: "string \<Rightarrow> string \<Rightarrow> string" where
  "blockedContent h c = h @ join [nl] (newEntries c) @ [nl]"

text \<open>The test of \<^verbatim>\<open>blockWebsite\<close> for existing entries.\<close>

definition alreadyBlocked :: "string \<Rightarrow> string \<Rightarrow> bool" where
  "alreadyBlocked h c =
     (includesStr h (''127.0.0.1 '' @ c) \<or> includesStr h (''127.0.0.1 '' @ ''www.'' @ c))"

text \<open>The comment line written above the four bindings.\<close>

definition markerLine :: string where
  "markerLine = ''# # Blocked by Technician App''"

subsection \<open>Sample files\<close>

text \<open>
  A machine in UTC on which no process runs and no path pattern matches; file stats;
  a buffer of zeros; a version-17 buffer with one run time (2023-11-14) and run count 5.
\<close>

definition sampleEnv :: prefetchEnv where
  "sampleEnv = \<lparr>now = 1700000000000, localTZA = utc, isProcessRunning = (\<lambda>exe. False),
                 pathMatches = (\<lambda>buffer. [])\<rparr>"

definition sampleStats :: fileStats where
  "sampleStats = \<lparr>mtime = Some 1690000000000, birthtime = Some 1680000000000\<rparr>"

definition corruptBuffer :: "byte list" where
  "corruptBuffer = replicate 300 0"

definition vistaBuffer :: "byte list" where
  "vistaBuffer = [17, 0, 0, 0] @ replicate 124 0
                 @ [0x00, 0x00, 0x6D, 0xC6, 0x47, 0x17, 0xDA, 0x01]
                 @ replicate 8 0 @ [5, 0, 0, 0]"

definition laterStats :: fileStats where
  "laterStats = \<lparr>mtime = Some 1695000000000, birthtime = None\<rparr>"

text \<open>
  A directory with two files that parse, one too short to hold a version, one whose
  \<^verbatim>\<open>statSync\<close> throws, and one that is no prefetch file; and one with no prefetch file.
\<close>

definition chromeFile :: dirEntry where
  "chromeFile = \<lparr>fileName = ''CHROME.EXE-AABBCCDD.pf'', stats = Some sampleStats, content = Some vistaBuffer\<rparr>"

definition notepadFile :: dirEntry where
  "notepadFile = \<lparr>fileName = ''NOTEPAD.EXE-1A2B3C4D.pf'', stats = Some laterStats, content = Some [30, 0, 0, 0]\<rparr>"

definition brokenFile :: dirEntry where
  "brokenFile = \<lparr>fileName = ''BROKEN.EXE-00000000.pf'', stats = Some sampleStats, content = Some [1, 2, 3]\<rparr>"

definition lockedFile :: dirEntry where
  "lockedFile = \<lparr>fileName = ''LOCKED.EXE-11111111.PF'', stats = None, content = None\<rparr>"

definition layoutFile :: dirEntry where
  "layoutFile = \<lparr>fileName = ''Layout.ini'', stats = Some sampleStats, content = Some []\<rparr>"

definition sampleDirectory :: directory where
  "sampleDirectory = Listing [notepadFile, brokenFile, layoutFile, chromeFile, lockedFile]"


text \<open>The files of a listing that the analysis looks at.\<close>

definition prefetchFilesOf :: "dirEntry list \<Rightarrow> dirEntry list" where
  "prefetchFilesOf entries = filter (\<lambda>f. isPf (fileName f)) entries"







section \<open>Properties\<close>

lemma includes_iff_sublist: "includesStr s p \<longleftrightarrow> sublist p s"
  by (induction s) (auto simp: sublist_Cons_right)

subsection \<open>Dates and FILETIME\<close>

lemma bigintDiv_nonneg: "0 \<le> a \<Longrightarrow> 0 < b \<Longrightarrow> bigintDiv a b = a div b"
  by (cases "a = 0") (simp_all add: bigintDiv_def)

lemma yearSearch_spec:
  "DayFromYear y \<le> d \<Longrightarrow>
     DayFromYear (yearSearch d y) \<le> d \<and> d < DayFromYear (yearSearch d y + 1)"
proof (induction d y rule: yearSearch.induct)
  case (1 d y)
  show ?case
  proof (cases "DayFromYear (y + 1) \<le> d")
    case True
    then show ?thesis using "1.IH" by (subst (1 2) yearSearch.simps) simp
  next
    case False
    then show ?thesis using "1.prems" by (subst (1 2) yearSearch.simps) simp
  qed
qed

lemma DayFromYear_1970: "DayFromYear 1970 = 0"
  by (simp add: DayFromYear_def)

lemma DayFromYear_after: "0 \<le> k \<Longrightarrow> DayFromYear (1970 + k) \<le> 366 * k"
proof (induction k rule: int_ge_induct)
  case base
  then show ?case by (simp add: DayFromYear_1970)
next
  case (step i)
  have "DayFromYear (1970 + i + 1) \<le> DayFromYear (1970 + i) + 366"
    using DayFromYear_bounds [of "1970 + i"] by simp
  then show ?case using step by (simp add: add.assoc)
qed

lemma DayFromYear_before: "k \<le> 0 \<Longrightarrow> DayFromYear (1970 + k) \<le> 365 * k"
proof (induction k rule: int_le_induct)
  case base
  then show ?case by (simp add: DayFromYear_1970)
next
  case (step i)
  have "DayFromYear (1970 + (i - 1)) + 365 \<le> DayFromYear (1970 + (i - 1) + 1)"
    using DayFromYear_bounds [of "1970 + (i - 1)"] by simp
  then have "DayFromYear (1970 + (i - 1)) + 365 \<le> DayFromYear (1970 + i)"
    by simp
  then show ?case using step by simp
qed

text \<open>\<open>YearFromTime\<close> is the year of ECMAScript: the one that contains the day of \<open>t\<close>.\<close>

lemma YearFromTime_spec:
  "DayFromYear (YearFromTime t) \<le> t div 86400000
   \<and> t div 86400000 < DayFromYear (YearFromTime t + 1)"
proof -
  define d where "d = t div 86400000"
  define y0 where "y0 = 1970 + (if 0 \<le> d then d div 366 else d div 365)"
  have "DayFromYear y0 \<le> d"
  proof (cases "0 \<le> d")
    case True
    then have "0 \<le> d div 366" by simp
    then have "DayFromYear (1970 + d div 366) \<le> 366 * (d div 366)"
      by (rule DayFromYear_after)
    also have "\<dots> \<le> d" by simp
    finally show ?thesis using True by (simp add: y0_def)
  next
    case False
    then have "d div 365 < 0" by (intro div_neg_pos_less0) simp_all
    then have "d div 365 \<le> 0" by simp
    then have "DayFromYear (1970 + d div 365) \<le> 365 * (d div 365)"
      by (rule DayFromYear_before)
    also have "\<dots> \<le> d" by simp
    finally show ?thesis using False by (simp add: y0_def)
  qed
  then have "DayFromYear (yearSearch d y0) \<le> d \<and> d < DayFromYear (yearSearch d y0 + 1)"
    by (rule yearSearch_spec)
  then show ?thesis
    unfolding YearFromTime_def Let_def y0_def d_def .
qed

text \<open>
  C5. \<^verbatim>\<open>windowsFileTimeToDate\<close> returns a date exactly when the truncated quotient of
  the ticks by 10000 is at least 11644473600000 and the difference is a valid time value
  whose local year lies in 1970..2050, and the date is that difference. Hence a time
  value \<open>T\<close> that is not negative and whose local year lies in 1970..2050 comes back
  unchanged from its FILETIME ticks.
\<close>

theorem filetime_roundtrip:
  "(windowsFileTimeToDate tza ft = Some d \<longleftrightarrow>
      windowsEpochDiff \<le> bigintDiv ft 10000 \<and> d = bigintDiv ft 10000 - windowsEpochDiff
      \<and> d \<le> maxTimeValue \<and> 1970 \<le> getFullYear tza d \<and> getFullYear tza d \<le> 2050)
   \<and> (0 \<le> T \<and> T \<le> maxTimeValue \<and> 1970 \<le> getFullYear tza T \<and> getFullYear tza T \<le> 2050
        \<longrightarrow> windowsFileTimeToDate tza ((T + windowsEpochDiff) * 10000) = Some T)"
proof (intro conjI impI)
  show "windowsFileTimeToDate tza ft = Some d \<longleftrightarrow>
      windowsEpochDiff \<le> bigintDiv ft 10000 \<and> d = bigintDiv ft 10000 - windowsEpochDiff
      \<and> d \<le> maxTimeValue \<and> 1970 \<le> getFullYear tza d \<and> getFullYear tza d \<le> 2050"
    by (auto simp: windowsFileTimeToDate_def Let_def)
next
  assume h: "0 \<le> T \<and> T \<le> maxTimeValue \<and> 1970 \<le> getFullYear tza T \<and> getFullYear tza T \<le> 2050"
  have "0 \<le> (T + windowsEpochDiff) * 10000"
    using h by (simp add: windowsEpochDiff_def)
  then have "bigintDiv ((T + windowsEpochDiff) * 10000) 10000 = (T + windowsEpochDiff) * 10000 div 10000"
    by (rule bigintDiv_nonneg) simp
  then have e: "bigintDiv ((T + windowsEpochDiff) * 10000) 10000 = T + windowsEpochDiff"
    by simp
  show "windowsFileTimeToDate tza ((T + windowsEpochDiff) * 10000) = Some T"
    unfolding windowsFileTimeToDate_def Let_def e using h by simp
qed

theorem filetime_roundtrip_witness:
  "0 \<le> (1700000000000::int) \<and> 1700000000000 \<le> maxTimeValue
   \<and> getFullYear utc 1700000000000 = 2023
   \<and> windowsFileTimeToDate utc ((1700000000000 + windowsEpochDiff) * 10000) = Some 1700000000000"
proof -
  have y: "getFullYear utc 1700000000000 = 2023" by code_simp
  have m: "(1700000000000::int) \<le> maxTimeValue" by (simp add: maxTimeValue_def)
  show ?thesis
    using filetime_roundtrip [of utc 0 0 1700000000000] y m by simp
qed

text \<open>
  One hour east of Greenwich the last millisecond of 1969 (UTC) has the local year 1970,
  and its FILETIME ticks convert to null.
\<close>

theorem filetime_roundtrip_counterexample:
  "1970 \<le> getFullYear centralEuropeanTime (- 1) \<and> getFullYear centralEuropeanTime (- 1) \<le> 2050
   \<and> windowsFileTimeToDate centralEuropeanTime ((- 1 + windowsEpochDiff) * 10000) = None"
  by code_simp

subsection \<open>Expiry of a timed block\<close>

text \<open>
  C1. The expiry action is to unblock the domain, drop its registry entry and notify
  every window once. For \<^verbatim>\<open>blockWebsiteStudentMode("y.com", "10sec")\<close> in an elevated
  session the action runs after ten seconds and does none of it: the entry is still
  registered when the callback calls \<^verbatim>\<open>unblockWebsite\<close>, whose timer guard rejects, and
  the rejection skips the deletion and the notification.
\<close>

theorem expiry_rejected_by_timer_guard:
  "fst (blockWebsiteStudentMode adminWorld ''y.com'' ''10sec'')
       = Inr \<lparr>smMessage = ''Website '' @ quoted ''y.com'' @ '' blocked in student mode for 10sec'',
              smEndTime = 1010000, smDuration = ''10sec''\<rparr>
   \<and> timeouts afterTimedBlock = [(0, 1010000, ''y.com'')]
   \<and> includesStr (hostsFile afterTimedBlock) ''127.0.0.1 y.com''
   \<and> hostsFile (elapse afterTimedBlock 10000) = hostsFile afterTimedBlock
   \<and> map fst (studentModeTimers (elapse afterTimedBlock 10000)) = [''y.com'']
   \<and> timeouts (elapse afterTimedBlock 10000) = []
   \<and> sent (elapse afterTimedBlock 10000) = []"
  by code_simp

subsection \<open>Registry keys\<close>

text \<open>
  C3. The timer entry is to be registered under the canonical domain, and a second call
  is to replace the entry and its pending expiry. The registry key is the URL as given:
  after \<^verbatim>\<open>blockWebsiteStudentMode("https://www.example.com/x", "1d")\<close> there is no entry
  for \<open>example.com\<close>, so the guard of \<^verbatim>\<open>unblockWebsite\<close> does not see the timer. After two
  calls for \<open>example.com\<close> the entry holds the second handle and both timeouts are pending.
\<close>

theorem timer_keyed_by_raw_url:
  "cleanUrlOf ''https://www.example.com/x'' = ''example.com''
   \<and> map fst (studentModeTimers afterRawUrlBlock) = [''https://www.example.com/x'']
   \<and> mapGet (studentModeTimers afterRawUrlBlock) ''example.com'' = None
   \<and> fst (unblockWebsite afterRawUrlBlock ''example.com'')
       = Inr (''Website '' @ quoted ''example.com''
              @ '' has been unblocked. Removed 4 entries from hosts file.'')
   \<and> map fst (studentModeTimers blockedTwice) = [''example.com'']
   \<and> map (timeoutId \<circ> snd) (studentModeTimers blockedTwice) = [Some 1]
   \<and> timeouts blockedTwice = [(0, 87400000, ''example.com''), (1, 1010000, ''example.com'')]"
  by code_simp

subsection \<open>Status query\<close>

lemma keys_mapSet:
  "map fst (mapSet m k v) = (if k \<in> set (map fst m) then map fst m else map fst m @ [k])"
proof -
  have "map fst (map (\<lambda>(k', v'). if k' = k then (k', v) else (k', v')) m) = map fst m"
    by (induction m) (simp_all add: case_prod_beta)
  then show ?thesis by (simp add: mapSet_def)
qed

lemma keys_mapDelete: "map fst (mapDelete m k) = filter (\<lambda>k'. k' \<noteq> k) (map fst m)"
  by (induction m) (simp_all add: mapDelete_def case_prod_beta)

text \<open>The registry operations keep the keys unique.\<close>

lemma distinct_mapSet: "distinct (map fst m) \<Longrightarrow> distinct (map fst (mapSet m k v))"
  by (simp add: keys_mapSet)

lemma distinct_mapDelete: "distinct (map fst m) \<Longrightarrow> distinct (map fst (mapDelete m k))"
  by (simp add: keys_mapDelete)

lemma statusLoop_active:
  "fst (statusLoop t es acc w)
     = acc @ map (\<lambda>(url, td). timerSnapshot url td (endTime td - t)) (filter (\<lambda>e. \<not> expiredAt t e) es)"
  by (induction es arbitrary: acc w) (auto simp: Let_def expiredAt_def)

lemma statusLoop_timers:
  "studentModeTimers (snd (statusLoop t es acc w))
     = filter (\<lambda>(k, v). k \<notin> fst ` {e \<in> set es. expiredAt t e}) (studentModeTimers w)"
proof (induction es arbitrary: acc w)
  case Nil
  then show ?case by simp
next
  case (Cons e es)
  obtain url td where e: "e = (url, td)" by (cases e)
  show ?case
  proof (cases "endTime td - t > 0")
    case True
    then have "{x \<in> set (e # es). expiredAt t x} = {x \<in> set es. expiredAt t x}"
      by (auto simp: e expiredAt_def)
    then show ?thesis using True Cons.IH by (simp add: e Let_def)
  next
    case False
    then have s: "{x \<in> set (e # es). expiredAt t x} = insert e {x \<in> set es. expiredAt t x}"
      by (auto simp: e expiredAt_def)
    show ?thesis
      using False unfolding s
      by (auto simp: e Let_def Cons.IH mapDelete_def clearTimeout_def split: option.splits
          intro!: filter_cong)
  qed
qed

lemma statusLoop_timeouts:
  "timeouts (snd (statusLoop t es acc w))
     = filter (\<lambda>(h, due, url). Some h \<notin> (timeoutId \<circ> snd) ` {e \<in> set es. expiredAt t e}) (timeouts w)"
proof (induction es arbitrary: acc w)
  case Nil
  then show ?case by simp
next
  case (Cons e es)
  obtain url td where e: "e = (url, td)" by (cases e)
  show ?case
  proof (cases "endTime td - t > 0")
    case True
    then have "{x \<in> set (e # es). expiredAt t x} = {x \<in> set es. expiredAt t x}"
      by (auto simp: e expiredAt_def)
    then show ?thesis using True Cons.IH by (simp add: e Let_def)
  next
    case False
    then have s: "{x \<in> set (e # es). expiredAt t x} = insert e {x \<in> set es. expiredAt t x}"
      by (auto simp: e expiredAt_def)
    show ?thesis
      using False unfolding s
      by (auto simp: e Let_def Cons.IH mapDelete_def clearTimeout_def split: option.splits
          intro!: filter_cong)
  qed
qed


lemma map_of_filter_out: "k \<in> S \<Longrightarrow> map_of (filter (\<lambda>(k', v). k' \<notin> S) m) k = None"
  by (induction m) auto

lemma handle_filtered_out:
  "Some h \<in> S \<Longrightarrow> h \<notin> fst ` set (filter (\<lambda>(h', due, u). Some h' \<notin> S) ts)"
  by (induction ts) auto

lemma getStudentModeStatus_parts:
  "fst (fst (getStudentModeStatus w)) = fst (statusLoop (clock w) (studentModeTimers w) [] w)"
  "snd (fst (getStudentModeStatus w)) = length (fst (statusLoop (clock w) (studentModeTimers w) [] w))"
  "snd (getStudentModeStatus w) = snd (statusLoop (clock w) (studentModeTimers w) [] w)"
  by (simp_all add: getStudentModeStatus_def split: prod.splits)

text \<open>
  \<^verbatim>\<open>formatTimeRemaining\<close> writes the string of the specification for every remaining time
  that is not negative.
\<close>

lemma jsRem_nonneg: "0 \<le> a \<Longrightarrow> 0 < b \<Longrightarrow> jsRem a b = a mod b"
  by (cases "a = 0") (simp_all add: jsRem_def)

lemma mod_div_units:
  fixes s :: int
  shows "s mod 86400 div 3600 = s div 3600 mod 24" and "s mod 3600 div 60 = s div 60 mod 60"
proof -
  have "s mod (3600 * 24) = 3600 * (s div 3600 mod 24) + s mod 3600"
    by (rule zmod_zmult2_eq) simp
  then show "s mod 86400 div 3600 = s div 3600 mod 24" by simp
  have "s mod (60 * 60) = 60 * (s div 60 mod 60) + s mod 60"
    by (rule zmod_zmult2_eq) simp
  then show "s mod 3600 div 60 = s div 60 mod 60" by simp
qed

lemma formatTimeRemaining_spec:
  assumes "0 \<le> ms"
  shows "formatTimeRemaining ms = remainingTextSpec ms"
proof -
  define s where "s = ms div 1000"
  define d where "d = s div 86400"
  define h where "h = s div 3600 mod 24"
  define m where "m = s div 60 mod 60"
  define sec where "sec = s mod 60"
  have s: "0 \<le> s" using assms by (simp add: s_def)
  have pos: "0 \<le> d" "0 \<le> h" "0 \<le> m"
    using s by (simp_all add: d_def h_def m_def)
  have r: "jsRem s (24 * 3600) div 3600 = h" "jsRem s 3600 div 60 = m" "jsRem s 60 = sec"
    "s div (24 * 3600) = d"
    using s by (simp_all add: jsRem_nonneg mod_div_units h_def m_def sec_def d_def)
  have code: "formatTimeRemaining ms =
      (if d > 0 then showInt d @ ''d '' @ showInt h @ ''h '' @ showInt m @ ''m '' @ showInt sec @ ''s''
       else if h > 0 then showInt h @ ''h '' @ showInt m @ ''m '' @ showInt sec @ ''s''
       else if m > 0 then showInt m @ ''m '' @ showInt sec @ ''s''
       else showInt sec @ ''s'')"
    unfolding formatTimeRemaining_def Let_def s_def [symmetric] r ..
  have spec: "remainingTextSpec ms =
      join '' '' (map (\<lambda>(n, u). showInt n @ u)
                    (dropWhile (\<lambda>(n, u). n = 0) [(d, ''d''), (h, ''h''), (m, ''m'')] @ [(sec, ''s'')]))"
    unfolding remainingTextSpec_def Let_def s_def [symmetric] d_def h_def m_def sec_def ..
  show ?thesis
  proof (cases "d > 0")
    case True
    then show ?thesis unfolding code spec by simp
  next
    case d0: False
    then have d0': "d = 0" using pos by simp
    show ?thesis
    proof (cases "h > 0")
      case True
      then show ?thesis unfolding code spec using d0' by simp
    next
      case h0: False
      then have h0': "h = 0" using pos by simp
      show ?thesis
      proof (cases "m > 0")
        case True
        then show ?thesis unfolding code spec using d0' h0' by simp
      next
        case False
        then have "m = 0" using pos by simp
        then show ?thesis unfolding code spec using d0' h0' by simp
      qed
    qed
  qed
qed

lemma timerSnapshot_spec:
  "0 \<le> remaining \<Longrightarrow>
     timerSnapshot url td remaining
       = \<lparr>atWebsiteUrl = url, atDuration = duration td, atStartTime = startTime td,
          atEndTime = endTime td, remainingMs = remaining,
          remainingFormatted = remainingTextSpec remaining\<rparr>"
  by (simp add: timerSnapshot_def formatTimeRemaining_spec)

text \<open>
  C9. For a registry with unique keys (it is a \<^verbatim>\<open>Map\<close>) and any of its entries:
  if the end time has passed when \<^verbatim>\<open>getStudentModeStatus\<close> is called, the entry is not
  in the returned list, is gone from the registry, and its timeout is no longer pending;
  if time remains, the entry is returned with its URL, duration, start and end time, the
  remaining milliseconds and the string \<^verbatim>\<open>"{d}d {h}h {m}m {s}s"\<close> of the specification
  for them, and stays registered. Every element of the returned list is such an entry:
  its remaining time is positive and its string is the one of the specification. The
  count returned is the length of the list.
\<close>

theorem stale_timers_purged:
  assumes keys: "distinct (map fst (studentModeTimers w))"
    and entry: "(url, td) \<in> set (studentModeTimers w)"
  shows "(endTime td \<le> clock w \<longrightarrow>
            url \<notin> atWebsiteUrl ` set (fst (fst (getStudentModeStatus w)))
            \<and> mapGet (studentModeTimers (snd (getStudentModeStatus w))) url = None
            \<and> (\<forall>h. timeoutId td = Some h \<longrightarrow> h \<notin> fst ` set (timeouts (snd (getStudentModeStatus w)))))
       \<and> (clock w < endTime td \<longrightarrow>
            timerSnapshot url td (endTime td - clock w) \<in> set (fst (fst (getStudentModeStatus w)))
            \<and> remainingFormatted (timerSnapshot url td (endTime td - clock w))
                 = formatTimeRemaining (endTime td - clock w)
            \<and> \<lparr>atWebsiteUrl = url, atDuration = duration td, atStartTime = startTime td,
                atEndTime = endTime td, remainingMs = endTime td - clock w,
                remainingFormatted = remainingTextSpec (endTime td - clock w)\<rparr>
                 \<in> set (fst (fst (getStudentModeStatus w)))
            \<and> mapGet (studentModeTimers (snd (getStudentModeStatus w))) url = Some td)
       \<and> (\<forall>a \<in> set (fst (fst (getStudentModeStatus w))).
             0 < remainingMs a \<and> remainingFormatted a = remainingTextSpec (remainingMs a)
             \<and> (\<exists>td'. (atWebsiteUrl a, td') \<in> set (studentModeTimers w)
                     \<and> remainingMs a = endTime td' - clock w))
       \<and> snd (fst (getStudentModeStatus w)) = length (fst (fst (getStudentModeStatus w)))"
proof -
  let ?t = "clock w"
  let ?es = "studentModeTimers w"
  have same: "td' = td" if "(url, td') \<in> set ?es" for td'
    using keys entry that by (meson eq_key_imp_eq_value)
  have stale: "url \<notin> atWebsiteUrl ` set (fst (fst (getStudentModeStatus w)))
      \<and> mapGet (studentModeTimers (snd (getStudentModeStatus w))) url = None
      \<and> (\<forall>h. timeoutId td = Some h \<longrightarrow> h \<notin> fst ` set (timeouts (snd (getStudentModeStatus w))))"
    if old: "endTime td \<le> ?t"
  proof (intro conjI allI impI)
    show "url \<notin> atWebsiteUrl ` set (fst (fst (getStudentModeStatus w)))"
    proof
      assume "url \<in> atWebsiteUrl ` set (fst (fst (getStudentModeStatus w)))"
      then obtain td' where "(url, td') \<in> set ?es" "\<not> expiredAt ?t (url, td')"
        by (auto simp: getStudentModeStatus_parts statusLoop_active timerSnapshot_def)
      then show False using same old by (auto simp: expiredAt_def)
    qed
  next
    have "url \<in> fst ` {e \<in> set ?es. expiredAt ?t e}"
      using entry old by (force simp: expiredAt_def)
    then have "map_of (filter (\<lambda>(k, v). k \<notin> fst ` {e \<in> set ?es. expiredAt ?t e}) ?es) url = None"
      by (rule map_of_filter_out)
    then show "mapGet (studentModeTimers (snd (getStudentModeStatus w))) url = None"
      by (simp add: getStudentModeStatus_parts statusLoop_timers mapGet_def)
  next
    fix h assume h: "timeoutId td = Some h"
    have "Some h \<in> (timeoutId \<circ> snd) ` {e \<in> set ?es. expiredAt ?t e}"
      using entry old h by (force simp: expiredAt_def)
    then have "h \<notin> fst ` set (filter (\<lambda>(h', due, u). Some h' \<notin> (timeoutId \<circ> snd) ` {e \<in> set ?es. expiredAt ?t e}) (timeouts w))"
      by (rule handle_filtered_out)
    then show "h \<notin> fst ` set (timeouts (snd (getStudentModeStatus w)))"
      by (simp add: getStudentModeStatus_parts statusLoop_timeouts)
  qed
  have active: "timerSnapshot url td (endTime td - ?t) \<in> set (fst (fst (getStudentModeStatus w)))
      \<and> remainingFormatted (timerSnapshot url td (endTime td - ?t)) = formatTimeRemaining (endTime td - ?t)
      \<and> \<lparr>atWebsiteUrl = url, atDuration = duration td, atStartTime = startTime td,
          atEndTime = endTime td, remainingMs = endTime td - ?t,
          remainingFormatted = remainingTextSpec (endTime td - ?t)\<rparr>
           \<in> set (fst (fst (getStudentModeStatus w)))
      \<and> mapGet (studentModeTimers (snd (getStudentModeStatus w))) url = Some td"
    if new: "?t < endTime td"
  proof (intro conjI)
    show in_list: "timerSnapshot url td (endTime td - ?t) \<in> set (fst (fst (getStudentModeStatus w)))"
      using entry new by (force simp: getStudentModeStatus_parts statusLoop_active expiredAt_def)
    have "0 \<le> endTime td - ?t" using new by simp
    then show "\<lparr>atWebsiteUrl = url, atDuration = duration td, atStartTime = startTime td,
          atEndTime = endTime td, remainingMs = endTime td - ?t,
          remainingFormatted = remainingTextSpec (endTime td - ?t)\<rparr>
           \<in> set (fst (fst (getStudentModeStatus w)))"
      using in_list by (simp only: timerSnapshot_spec)
  next
    show "remainingFormatted (timerSnapshot url td (endTime td - ?t)) = formatTimeRemaining (endTime td - ?t)"
      by (simp add: timerSnapshot_def)
  next
    let ?keep = "\<lambda>(k, v). k \<notin> fst ` {e \<in> set ?es. expiredAt ?t e}"
    have "url \<notin> fst ` {e \<in> set ?es. expiredAt ?t e}"
      using same new by (auto simp: expiredAt_def)
    then have "(url, td) \<in> set (filter ?keep ?es)"
      using entry by simp
    moreover have "distinct (map fst (filter ?keep ?es))"
      using keys by (rule distinct_map_filter)
    ultimately have "map_of (filter ?keep ?es) url = Some td"
      by (rule map_of_is_SomeI [rotated])
    then show "mapGet (studentModeTimers (snd (getStudentModeStatus w))) url = Some td"
      by (simp add: getStudentModeStatus_parts statusLoop_timers mapGet_def)
  qed
  have listed: "0 < remainingMs a \<and> remainingFormatted a = remainingTextSpec (remainingMs a)
             \<and> (\<exists>td'. (atWebsiteUrl a, td') \<in> set ?es \<and> remainingMs a = endTime td' - ?t)"
    if a: "a \<in> set (fst (fst (getStudentModeStatus w)))" for a
  proof -
    obtain u' td' where e: "(u', td') \<in> set ?es" "\<not> expiredAt ?t (u', td')"
      and a': "a = timerSnapshot u' td' (endTime td' - ?t)"
      using a by (auto simp: getStudentModeStatus_parts statusLoop_active)
    have p: "0 < endTime td' - ?t" using e(2) by (simp add: expiredAt_def)
    then have "0 \<le> endTime td' - ?t" by simp
    then have "a = \<lparr>atWebsiteUrl = u', atDuration = duration td', atStartTime = startTime td',
          atEndTime = endTime td', remainingMs = endTime td' - ?t,
          remainingFormatted = remainingTextSpec (endTime td' - ?t)\<rparr>"
      unfolding a' by (rule timerSnapshot_spec)
    then show ?thesis using p e(1) by auto
  qed
  have count: "snd (fst (getStudentModeStatus w)) = length (fst (fst (getStudentModeStatus w)))"
    by (simp add: getStudentModeStatus_parts)
  show ?thesis
  proof (intro conjI impI ballI)
    fix a assume a: "a \<in> set (fst (fst (getStudentModeStatus w)))"
    show "0 < remainingMs a" using listed [OF a] by (rule conjunct1)
    show "remainingFormatted a = remainingTextSpec (remainingMs a)"
      using listed [OF a] by (rule conjunct2 [THEN conjunct1])
    show "\<exists>td'. (atWebsiteUrl a, td') \<in> set (studentModeTimers w)
                     \<and> remainingMs a = endTime td' - clock w"
      using listed [OF a] by (rule conjunct2 [THEN conjunct2])
  qed (use stale active count in blast)+
qed

theorem stale_timers_purged_witness:
  "distinct (map fst (studentModeTimers staleWorld))
   \<and> endTime (the (mapGet (studentModeTimers staleWorld) ''old.com'')) = 510000
   \<and> endTime (the (mapGet (studentModeTimers staleWorld) ''new.com'')) = 87300000
   \<and> clock staleWorld = 1000000
   \<and> ''old.com'' \<notin> atWebsiteUrl ` set (fst (fst (getStudentModeStatus staleWorld)))
   \<and> mapGet (studentModeTimers (snd (getStudentModeStatus staleWorld))) ''old.com'' = None
   \<and> 0 \<notin> fst ` set (timeouts (snd (getStudentModeStatus staleWorld)))
   \<and> \<lparr>atWebsiteUrl = ''new.com'', atDuration = ''1d'', atStartTime = 900000,
       atEndTime = 87300000, remainingMs = 86300000, remainingFormatted = ''23h 58m 20s''\<rparr>
        \<in> set (fst (fst (getStudentModeStatus staleWorld)))
   \<and> fst (getStudentModeStatus staleWorld)
        = ([\<lparr>atWebsiteUrl = ''new.com'', atDuration = ''1d'', atStartTime = 900000,
             atEndTime = 87300000, remainingMs = 86300000, remainingFormatted = ''23h 58m 20s''\<rparr>], 1)
   \<and> map fst (studentModeTimers (snd (getStudentModeStatus staleWorld))) = [''new.com'']
   \<and> timeouts (snd (getStudentModeStatus staleWorld)) = [(1, 87300000, ''new.com'')]"
proof -
  let ?old = "\<lparr>websiteUrl = ''old.com'', duration = ''10sec'', endTime = 510000,
              startTime = 500000, timeoutId = Some 0\<rparr>"
  let ?new = "\<lparr>websiteUrl = ''new.com'', duration = ''1d'', endTime = 87300000,
              startTime = 900000, timeoutId = Some 1\<rparr>"
  have d: "distinct (map fst (studentModeTimers staleWorld))"
    by (simp add: staleWorld_def)
  have e1: "(''old.com'', ?old) \<in> set (studentModeTimers staleWorld)"
    by (simp add: staleWorld_def)
  have e2: "(''new.com'', ?new) \<in> set (studentModeTimers staleWorld)"
    by (simp add: staleWorld_def)
  have c: "clock staleWorld = 1000000"
    by (simp add: staleWorld_def adminWorld_def)
  have g1: "endTime (the (mapGet (studentModeTimers staleWorld) ''old.com'')) = 510000"
    by (simp add: staleWorld_def mapGet_def)
  have g2: "endTime (the (mapGet (studentModeTimers staleWorld) ''new.com'')) = 87300000"
    by (simp add: staleWorld_def mapGet_def)
  have t: "remainingTextSpec 86300000 = ''23h 58m 20s''" by code_simp
  have purged: "''old.com'' \<notin> atWebsiteUrl ` set (fst (fst (getStudentModeStatus staleWorld)))
      \<and> mapGet (studentModeTimers (snd (getStudentModeStatus staleWorld))) ''old.com'' = None
      \<and> 0 \<notin> fst ` set (timeouts (snd (getStudentModeStatus staleWorld)))"
    using stale_timers_purged [OF d e1] c by simp
  have "\<lparr>atWebsiteUrl = ''new.com'', atDuration = ''1d'', atStartTime = 900000,
       atEndTime = 87300000, remainingMs = 87300000 - 1000000,
       remainingFormatted = remainingTextSpec (87300000 - 1000000)\<rparr>
        \<in> set (fst (fst (getStudentModeStatus staleWorld)))"
    using stale_timers_purged [OF d e2] c by simp
  then have listed: "\<lparr>atWebsiteUrl = ''new.com'', atDuration = ''1d'', atStartTime = 900000,
       atEndTime = 87300000, remainingMs = 86300000, remainingFormatted = ''23h 58m 20s''\<rparr>
        \<in> set (fst (fst (getStudentModeStatus staleWorld)))"
    by (simp add: t)
  have whole: "fst (getStudentModeStatus staleWorld)
        = ([\<lparr>atWebsiteUrl = ''new.com'', atDuration = ''1d'', atStartTime = 900000,
             atEndTime = 87300000, remainingMs = 86300000, remainingFormatted = ''23h 58m 20s''\<rparr>], 1)"
    by code_simp
  have k: "map fst (studentModeTimers (snd (getStudentModeStatus staleWorld))) = [''new.com'']"
    by code_simp
  have q: "timeouts (snd (getStudentModeStatus staleWorld)) = [(1, 87300000, ''new.com'')]"
    by code_simp
  show ?thesis
    using d g1 g2 c purged listed whole k q by blast
qed

subsection \<open>Manual unblock under a running timer\<close>





lemma exec_frame:
  "isRunningAsAdmin (exec w c) = isRunningAsAdmin w"
  "studentModeTimers (exec w c) = studentModeTimers w"
  "hostsFile (exec w c) = hostsFile w"
  "fsOutcomes (exec w c) = fsOutcomes w"
  "clock (exec w c) = clock w"
  by (simp_all add: exec_def)




lemma unblockWebsite_guard:
  assumes "isRunningAsAdmin w" "cleanUrlOf u \<noteq> []" "mapGet (studentModeTimers w) (cleanUrlOf u) = Some td"
  shows "unblockWebsite w u
     = (Inl (Error (timerActiveMessage (cleanUrlOf u) (formatTimeRemaining (endTime td - clock w)))), w)"
  using assms by (simp add: unblockWebsite_def Let_def)

text \<open>
  With the entry still registered under the canonical domain, the expiry callback changes
  nothing at all.
\<close>

lemma expiryCallback_rejected:
  assumes "isRunningAsAdmin w" "cleanUrlOf u \<noteq> []" "mapGet (studentModeTimers w) (cleanUrlOf u) = Some td"
  shows "expiryCallback w u = w"
  using unblockWebsite_guard [OF assms] by (simp add: expiryCallback_def)









subsection \<open>Blocking twice, unblocking what is not blocked\<close>

lemma split_nonempty: "split sep s \<noteq> []"
  by (induction s) (auto split: list.splits)

lemma split_hd_prefix: "prefix (hd (split sep s)) s"
  by (induction s) (auto split: list.splits)



lemma split_append_sep: "split sep (a @ sep # b) = split sep a @ split sep b"
proof (induction a)
  case Nil
  then show ?case by simp
next
  case (Cons c cs)
  obtain l0 ls where s: "split sep cs = l0 # ls"
    using split_nonempty [of sep cs] by (cases "split sep cs") auto
  show ?case using Cons.IH by (simp add: s)
qed





lemma blockedContent_lines:
  "blockedContent h c = h @ nl # concat (map (\<lambda>l. l @ [nl]) (markerLine # blockLines c))"
  by (simp add: blockedContent_def newEntries_def blockLines_def markerLine_def)



lemma blockLines_shape:
  assumes "l \<in> set (blockLines c)"
  shows "l \<noteq> markerLine" and "l \<noteq> []"
    and "sublist (''127.0.0.1 '' @ c) (concat (map (\<lambda>l. l @ [nl]) (markerLine # blockLines c)))"
proof -
  show "l \<noteq> markerLine" using assms by (auto simp: blockLines_def markerLine_def)
  show "l \<noteq> []" using assms by (auto simp: blockLines_def)
  have "concat (map (\<lambda>l. l @ [nl]) (markerLine # blockLines c))
      = (markerLine @ [nl]) @ (''127.0.0.1 '' @ c) @ (nl # concat (map (\<lambda>l. l @ [nl]) (tl (blockLines c))))"
    by (simp add: blockLines_def)
  then show "sublist (''127.0.0.1 '' @ c) (concat (map (\<lambda>l. l @ [nl]) (markerLine # blockLines c)))"
    by (simp only: sublist_appendI)
qed

lemma sublist_after: "sublist x r \<Longrightarrow> sublist x (h @ a # r)"
proof -
  assume "sublist x r"
  then obtain ps ss where "r = ps @ x @ ss" by (auto simp: sublist_def)
  then have "h @ a # r = (h @ a # ps) @ x @ ss" by simp
  then show ?thesis unfolding sublist_def by blast
qed

lemma blockedContent_alreadyBlocked: "alreadyBlocked (blockedContent h c) c"
proof -
  have l: "''127.0.0.1 '' @ c \<in> set (blockLines c)" by (simp add: blockLines_def)
  have "sublist (''127.0.0.1 '' @ c) (concat (map (\<lambda>l. l @ [nl]) (markerLine # blockLines c)))"
    by (rule blockLines_shape(3) [OF l])
  then have "sublist (''127.0.0.1 '' @ c) (blockedContent h c)"
    unfolding blockedContent_lines by (rule sublist_after)
  then show ?thesis by (simp add: alreadyBlocked_def includes_iff_sublist)
qed







subsection \<open>Deep block\<close>

lemma mapGet_mapSet: "mapGet (mapSet m k v) k = Some v"
proof (cases "k \<in> set (map fst m)")
  case True
  then have "map_of (map (\<lambda>(k', v'). if k' = k then (k', v) else (k', v')) m) k = Some v"
    by (induction m) auto
  then show ?thesis using True by (simp add: mapGet_def mapSet_def)
next
  case False
  then have "map_of m k = None" by (simp add: map_of_eq_None_iff)
  then show ?thesis using False by (simp add: mapGet_def mapSet_def map_add_def)
qed

text \<open>What a successful \<^verbatim>\<open>blockWebsite\<close> leaves in the hosts file, and what it leaves alone.\<close>

lemma readFileSync_result:
  "readFileSync w = (Inr hc, w0) \<Longrightarrow> hc = hostsFile w"
  "readFileSync w = (r, w0) \<Longrightarrow> hostsFile w0 = hostsFile w"
  by (auto simp: readFileSync_def split: list.splits option.splits)

lemma writeFileSync_result:
  "writeFileSync w c = (Inr u, w2) \<Longrightarrow> hostsFile w2 = c"
  "writeFileSync w c = (Inl m, w2) \<Longrightarrow> hostsFile w2 = hostsFile w"
  by (auto simp: writeFileSync_def split: list.splits option.splits)

lemma not_blocked_empty: "\<not> alreadyBlocked [] c"
  by (simp add: alreadyBlocked_def)

lemma blockWebsite_blocked:
  assumes "blockWebsite w u = (Inr r, w1)"
  shows "alreadyBlocked (hostsFile w1) (cleanUrlOf u)"
proof -
  let ?c = "cleanUrlOf u"
  obtain rd w0 where rd: "readFileSync w = (rd, w0)" by (cases "readFileSync w")
  define h where "h = (case rd of Inl m \<Rightarrow> [] | Inr hc \<Rightarrow> hc)"
  have pre: "isRunningAsAdmin w" "u \<noteq> []" "?c \<noteq> []"
    using assms unfolding blockWebsite_def by (auto simp: Let_def split: if_splits)
  show ?thesis
  proof (cases "alreadyBlocked h ?c")
    case True
    then have "w1 = w0"
      using assms pre rd unfolding blockWebsite_def alreadyBlocked_def h_def
      by (simp add: Let_def)
    moreover have "h = hostsFile w"
    proof (cases rd)
      case (Inl m)
      then show ?thesis using True not_blocked_empty by (simp add: h_def)
    next
      case (Inr hc)
      then show ?thesis using readFileSync_result(1) rd by (simp add: h_def)
    qed
    ultimately show ?thesis
      using True readFileSync_result(2) [OF rd] by simp
  next
    case False
    obtain wr w2 where wr: "writeFileSync w0 (blockedContent h ?c) = (wr, w2)"
      by (cases "writeFileSync w0 (blockedContent h ?c)")
    have res: "blockWebsite w u =
        (case wr of
           Inl m \<Rightarrow> (Inl (Error (''Failed to modify hosts file: '' @ m
                       @ ''. Make sure the application is running as administrator.'')), w2)
         | Inr x \<Rightarrow> (Inr (''Website '' @ quoted ?c
                       @ '' has been blocked using the system hosts file. Changes take effect immediately.''),
                     exec w2 ''ipconfig /flushdns''))"
      using False pre rd wr unfolding blockWebsite_def alreadyBlocked_def h_def blockedContent_def
      by (simp add: Let_def split: sum.splits)
    then obtain x where x: "wr = Inr x" and w1: "w1 = exec w2 ''ipconfig /flushdns''"
      using assms by (cases wr) simp_all
    have "hostsFile w1 = blockedContent h ?c"
      using writeFileSync_result(1) wr x w1 by (simp add: exec_frame)
    then show ?thesis by (simp add: blockedContent_alreadyBlocked)
  qed
qed

lemma secondField_first:
  "secondField (''0.0.0.0 '' @ c @ '' '' @ deepMarker) = hd (split CHR '' '' c)"
proof -
  have a: "split CHR '' '' (''0.0.0.0'' @ CHR '' '' # (c @ CHR '' '' # deepMarker))
      = split CHR '' '' ''0.0.0.0'' @ split CHR '' '' (c @ CHR '' '' # deepMarker)"
    by (rule split_append_sep)
  have b: "split CHR '' '' (c @ CHR '' '' # deepMarker) = split CHR '' '' c @ split CHR '' '' deepMarker"
    by (rule split_append_sep)
  obtain x xs where x: "split CHR '' '' c = x # xs"
    using split_nonempty [of "CHR '' ''" c] by (cases "split CHR '' '' c") auto
  have "split CHR '' '' (''0.0.0.0 '' @ c @ '' '' @ deepMarker)
      = ''0.0.0.0'' # x # xs @ split CHR '' '' deepMarker"
    using a b x by simp
  then show ?thesis by (simp add: secondField_def x)
qed

lemma sublist_trans: "sublist a b \<Longrightarrow> sublist b c \<Longrightarrow> sublist a c"
  by (rule sublist_order.order_trans)

lemma sublist_of_suffix: "sublist c (p @ c)"
  by (rule suffix_imp_sublist) (rule suffixI, rule refl)

lemma deep_block_exists:
  assumes "alreadyBlocked h c"
  shows "list_ex (\<lambda>block. includesStr h (secondField block)) (additionalBlocks c)"
proof -
  have "prefix (hd (split CHR '' '' c)) c" by (rule split_hd_prefix)
  then have t: "sublist (hd (split CHR '' '' c)) c" by (rule prefix_imp_sublist)
  have "sublist c (''127.0.0.1 '' @ c)" "sublist c ((''127.0.0.1 '' @ ''www.'') @ c)"
    by (rule sublist_of_suffix)+
  then have "sublist c (''127.0.0.1 '' @ c)" "sublist c (''127.0.0.1 '' @ ''www.'' @ c)"
    by (simp_all only: append_assoc)
  then have "sublist c h"
    using assms sublist_trans unfolding alreadyBlocked_def includes_iff_sublist by blast
  then have "includesStr h (hd (split CHR '' '' c))"
    using t sublist_trans unfolding includes_iff_sublist by blast
  then have "includesStr h (secondField (''0.0.0.0 '' @ c @ '' '' @ deepMarker))"
    by (simp only: secondField_first)
  then show ?thesis by (simp add: additionalBlocks_def)
qed


lemma blockWebsite_timers:
  assumes "blockWebsite w u = (r, w1)"
  shows "clock w1 = clock w \<and> nextHandle w1 = nextHandle w \<and> timeouts w1 = timeouts w
       \<and> studentModeTimers w1 = studentModeTimers w"
  using assms
  by (auto simp: blockWebsite_def Let_def readFileSync_def writeFileSync_def exec_def
      split: if_splits list.splits option.splits prod.splits sum.splits)

lemma foldl_exec_frame:
  "clock (foldl exec w cs) = clock w \<and> nextHandle (foldl exec w cs) = nextHandle w
   \<and> timeouts (foldl exec w cs) = timeouts w
   \<and> studentModeTimers (foldl exec w cs) = studentModeTimers w
   \<and> hostsFile (foldl exec w cs) = hostsFile w"
  by (induction cs arbitrary: w) (simp_all add: exec_def)

lemma readFileSync_timers:
  assumes "readFileSync w = (r, w1)"
  shows "clock w1 = clock w \<and> nextHandle w1 = nextHandle w \<and> timeouts w1 = timeouts w
       \<and> studentModeTimers w1 = studentModeTimers w"
  using assms by (auto simp: readFileSync_def split: list.splits option.splits)

lemma writeFileSync_timers:
  assumes "writeFileSync w c = (r, w1)"
  shows "clock w1 = clock w \<and> nextHandle w1 = nextHandle w \<and> timeouts w1 = timeouts w
       \<and> studentModeTimers w1 = studentModeTimers w"
  using assms by (auto simp: writeFileSync_def split: list.splits option.splits)

text \<open>The branches of the deep block after a successful basic block.\<close>

lemma blockWebsiteDeep_branches:
  assumes "isRunningAsAdmin w" and "cleanUrlOf url = c" and "c \<noteq> []"
    and "blockWebsite w c = (Inr r, w1)"
  shows "readFileSync w1 = (Inl m, w2) \<Longrightarrow>
           blockWebsiteDeep w url = (Inr (basicLevelMessage c), w2)"
    and "readFileSync w1 = (Inr hc, w2) \<Longrightarrow>
           list_ex (\<lambda>block. includesStr hc (secondField block)) (additionalBlocks c) \<Longrightarrow>
           blockWebsiteDeep w url = (Inr (deepMessage c), foldl exec w2 dnsCommands)"
    and "readFileSync w1 = (Inr hc, w2) \<Longrightarrow>
           \<not> list_ex (\<lambda>block. includesStr hc (secondField block)) (additionalBlocks c) \<Longrightarrow>
           writeFileSync w2 (hc @ [nl, nl] @ ''# Student Mode Deep Blocking Entries'' @ [nl]
                               @ join [nl] (additionalBlocks c) @ [nl]) = (Inl m, w3) \<Longrightarrow>
           blockWebsiteDeep w url = (Inr (basicLevelMessage c), w3)"
    and "readFileSync w1 = (Inr hc, w2) \<Longrightarrow>
           \<not> list_ex (\<lambda>block. includesStr hc (secondField block)) (additionalBlocks c) \<Longrightarrow>
           writeFileSync w2 (hc @ [nl, nl] @ ''# Student Mode Deep Blocking Entries'' @ [nl]
                               @ join [nl] (additionalBlocks c) @ [nl]) = (Inr u, w3) \<Longrightarrow>
           blockWebsiteDeep w url = (Inr (deepMessage c), foldl exec w3 dnsCommands)"
  using assms unfolding blockWebsiteDeep_def by (simp_all add: Let_def)

lemma blockWebsiteDeep_after_basic:
  assumes "isRunningAsAdmin w" and "cleanUrlOf url = c" and "c \<noteq> []"
    and "blockWebsite w c = (Inr r, w1)"
  shows "\<exists>msg w'. blockWebsiteDeep w url = (Inr msg, w')
           \<and> clock w' = clock w \<and> nextHandle w' = nextHandle w \<and> timeouts w' = timeouts w
           \<and> studentModeTimers w' = studentModeTimers w"
proof -
  note b = blockWebsite_timers [OF assms(4)]
  obtain rd w2 where rd: "readFileSync w1 = (rd, w2)" by (cases "readFileSync w1")
  note f2 = readFileSync_timers [OF rd]
  show ?thesis
  proof (cases rd)
    case (Inl m)
    then show ?thesis
      using blockWebsiteDeep_branches(1) [OF assms, of m w2] rd b f2 by simp
  next
    case (Inr hc)
    show ?thesis
    proof (cases "list_ex (\<lambda>block. includesStr hc (secondField block)) (additionalBlocks c)")
      case True
      then show ?thesis
        using blockWebsiteDeep_branches(2) [OF assms, of hc w2] rd Inr b f2
          foldl_exec_frame [of w2 dnsCommands] by simp
    next
      case False
      obtain wr w3 where wr: "writeFileSync w2 (hc @ [nl, nl] @ ''# Student Mode Deep Blocking Entries'' @ [nl]
                               @ join [nl] (additionalBlocks c) @ [nl]) = (wr, w3)"
        by (cases "writeFileSync w2 (hc @ [nl, nl] @ ''# Student Mode Deep Blocking Entries'' @ [nl]
                               @ join [nl] (additionalBlocks c) @ [nl])")
      note f3 = writeFileSync_timers [OF wr]
      show ?thesis
      proof (cases wr)
        case (Inl m)
        then show ?thesis
          using blockWebsiteDeep_branches(3) [OF assms, of hc w2 m w3] rd Inr False wr b f2 f3 by simp
      next
        case (Inr u)
        then show ?thesis
          using blockWebsiteDeep_branches(4) [OF assms, of hc w2 u w3] rd \<open>rd = Inr hc\<close> False wr b f2 f3
            foldl_exec_frame [of w3 dnsCommands] by simp
      qed
    qed
  qed
qed

text \<open>
  For a domain that is its own canonical form the test for existing deep entries is always
  positive after the basic block: it looks for the second field of each deep entry, which
  is the domain, and the basic block has left a line with the domain in the hosts file. So
  the deep entries are not written then.
\<close>

lemma canonical_never_written:
  assumes "isRunningAsAdmin w" and "cleanUrlOf url = c" and "c \<noteq> []"
    and "blockWebsite w c = (Inr r, w1)" and "cleanUrlOf c = c"
  shows "hostsFile (snd (blockWebsiteDeep w url)) = hostsFile w1"
    and "readFileSync w1 = (Inr hc, w2) \<Longrightarrow>
           list_ex (\<lambda>block. includesStr hc (secondField block)) (additionalBlocks c)"
proof -
  have blocked: "alreadyBlocked (hostsFile w1) c"
    using blockWebsite_blocked [OF assms(4)] assms(5) by simp
  show ex: "list_ex (\<lambda>block. includesStr hc (secondField block)) (additionalBlocks c)"
    if "readFileSync w1 = (Inr hc, w2)" for hc w2
    using readFileSync_result(1) [OF that] blocked by (simp add: deep_block_exists)
  obtain rd w2 where rd: "readFileSync w1 = (rd, w2)" by (cases "readFileSync w1")
  have h2: "hostsFile w2 = hostsFile w1" using readFileSync_result(2) [OF rd] .
  show "hostsFile (snd (blockWebsiteDeep w url)) = hostsFile w1"
  proof (cases rd)
    case (Inl m)
    then show ?thesis
      using blockWebsiteDeep_branches(1) [OF assms(1-4), of m w2] rd h2 by simp
  next
    case (Inr hc)
    then have "list_ex (\<lambda>block. includesStr hc (secondField block)) (additionalBlocks c)"
      using ex rd by simp
    then show ?thesis
      using blockWebsiteDeep_branches(2) [OF assms(1-4), of hc w2] rd Inr h2
        foldl_exec_frame [of w2 dnsCommands] by simp
  qed
qed

lemma blockWebsiteStudentMode_timer:
  assumes "isRunningAsAdmin w" and "parseDuration dur = ms" and "ms \<noteq> 0"
    and "blockWebsiteDeep w url = (Inr msg, w')"
    and "clock w' = clock w" "nextHandle w' = nextHandle w" "timeouts w' = timeouts w"
  shows "fst (blockWebsiteStudentMode w url dur)
           = Inr \<lparr>smMessage = ''Website '' @ quoted url @ '' blocked in student mode for '' @ dur,
                  smEndTime = clock w + ms, smDuration = dur\<rparr>"
    and "mapGet (studentModeTimers (snd (blockWebsiteStudentMode w url dur))) url
           = Some \<lparr>websiteUrl = url, duration = dur, endTime = clock w + ms,
                   startTime = clock w, timeoutId = Some (nextHandle w)\<rparr>"
    and "timeouts (snd (blockWebsiteStudentMode w url dur))
           = timeouts w @ [(nextHandle w, clock w + ms, url)]"
    and "hostsFile (snd (blockWebsiteStudentMode w url dur)) = hostsFile w'"
  using assms unfolding blockWebsiteStudentMode_def
  by (simp_all add: Let_def mapGet_mapSet)

lemma parseDuration_table:
  assumes "(dur, ms) \<in> set [(''10sec'', 10000), (''12hr'', 43200000), (''1d'', 86400000),
                     (''2d'', 172800000), (''3d'', 259200000), (''7d'', 604800000)]"
  shows "parseDuration dur = ms \<and> ms \<noteq> 0"
proof -
  have "(dur = ''10sec'' \<and> ms = 10000) \<or> (dur = ''12hr'' \<and> ms = 43200000)
      \<or> (dur = ''1d'' \<and> ms = 86400000) \<or> (dur = ''2d'' \<and> ms = 172800000)
      \<or> (dur = ''3d'' \<and> ms = 259200000) \<or> (dur = ''7d'' \<and> ms = 604800000)"
    using assms by simp
  then show ?thesis
    by (elim disjE conjE) (simp_all add: parseDuration_def)
qed

text \<open>
  C10. In an elevated session, when the basic block of the canonical domain \<open>c\<close>
  succeeds, \<^verbatim>\<open>blockWebsiteDeep\<close> succeeds, whatever the later calls on the hosts file
  and the DNS commands do. When its read of the hosts file fails, the answer is the
  basic-level message. When the read succeeds and the test for existing deep entries is
  positive, nothing is written and the answer is the message of the deep block, whatever
  becomes of the DNS commands, whose outcome is only logged. When the test is negative,
  the deep entries are written: if the write fails, the answer is the basic-level
  message, and if it succeeds, the message of the deep block. In all cases but the last
  the hosts file is as the basic block left it. With one of the six durations
  \<^verbatim>\<open>blockWebsiteStudentMode\<close> then succeeds, registers the timer under the given URL with
  the end time \<open>now + duration\<close>, schedules the expiry for that time, and leaves the hosts
  file as the deep block left it.
\<close>

theorem deep_block_downgrades:
  assumes "isRunningAsAdmin w" and "cleanUrlOf url = c" and "c \<noteq> []"
    and "blockWebsite w c = (Inr r, w1)"
  shows "(\<exists>msg. fst (blockWebsiteDeep w url) = Inr msg)
       \<and> (\<forall>m w2. readFileSync w1 = (Inl m, w2) \<longrightarrow>
             blockWebsiteDeep w url = (Inr (basicLevelMessage c), w2)
             \<and> hostsFile w2 = hostsFile w1)
       \<and> (\<forall>hc w2. readFileSync w1 = (Inr hc, w2)
               \<and> list_ex (\<lambda>block. includesStr hc (secondField block)) (additionalBlocks c) \<longrightarrow>
             blockWebsiteDeep w url = (Inr (deepMessage c), foldl exec w2 dnsCommands)
             \<and> hostsFile (foldl exec w2 dnsCommands) = hostsFile w1)
       \<and> (\<forall>hc w2 m w3. readFileSync w1 = (Inr hc, w2)
               \<and> \<not> list_ex (\<lambda>block. includesStr hc (secondField block)) (additionalBlocks c)
               \<and> writeFileSync w2 (hc @ [nl, nl] @ ''# Student Mode Deep Blocking Entries'' @ [nl]
                                       @ join [nl] (additionalBlocks c) @ [nl]) = (Inl m, w3) \<longrightarrow>
             blockWebsiteDeep w url = (Inr (basicLevelMessage c), w3)
             \<and> hostsFile w3 = hostsFile w1)
       \<and> (\<forall>hc w2 u w3. readFileSync w1 = (Inr hc, w2)
               \<and> \<not> list_ex (\<lambda>block. includesStr hc (secondField block)) (additionalBlocks c)
               \<and> writeFileSync w2 (hc @ [nl, nl] @ ''# Student Mode Deep Blocking Entries'' @ [nl]
                                       @ join [nl] (additionalBlocks c) @ [nl]) = (Inr u, w3) \<longrightarrow>
             blockWebsiteDeep w url = (Inr (deepMessage c), foldl exec w3 dnsCommands)
             \<and> hostsFile (foldl exec w3 dnsCommands)
                 = hostsFile w1 @ [nl, nl] @ ''# Student Mode Deep Blocking Entries'' @ [nl]
                     @ join [nl] (additionalBlocks c) @ [nl])
       \<and> (\<forall>dur ms. (dur, ms) \<in> set [(''10sec'', 10000), (''12hr'', 43200000), (''1d'', 86400000),
                                       (''2d'', 172800000), (''3d'', 259200000), (''7d'', 604800000)] \<longrightarrow>
             fst (blockWebsiteStudentMode w url dur)
               = Inr \<lparr>smMessage = ''Website '' @ quoted url @ '' blocked in student mode for '' @ dur,
                      smEndTime = clock w + ms, smDuration = dur\<rparr>
             \<and> mapGet (studentModeTimers (snd (blockWebsiteStudentMode w url dur))) url
                 = Some \<lparr>websiteUrl = url, duration = dur, endTime = clock w + ms,
                         startTime = clock w, timeoutId = Some (nextHandle w)\<rparr>
             \<and> timeouts (snd (blockWebsiteStudentMode w url dur))
                 = timeouts w @ [(nextHandle w, clock w + ms, url)]
             \<and> hostsFile (snd (blockWebsiteStudentMode w url dur))
                 = hostsFile (snd (blockWebsiteDeep w url)))"
proof -
  obtain msg w' where deep: "blockWebsiteDeep w url = (Inr msg, w')"
    and frame: "clock w' = clock w" "nextHandle w' = nextHandle w" "timeouts w' = timeouts w"
    using blockWebsiteDeep_after_basic [OF assms] by blast
  have p1: "\<exists>msg. fst (blockWebsiteDeep w url) = Inr msg"
    using deep by simp
  have p2: "\<forall>m w2. readFileSync w1 = (Inl m, w2) \<longrightarrow>
             blockWebsiteDeep w url = (Inr (basicLevelMessage c), w2)
             \<and> hostsFile w2 = hostsFile w1"
    using blockWebsiteDeep_branches(1) [OF assms] readFileSync_result(2) by blast
  have p3: "\<forall>hc w2. readFileSync w1 = (Inr hc, w2)
               \<and> list_ex (\<lambda>block. includesStr hc (secondField block)) (additionalBlocks c) \<longrightarrow>
             blockWebsiteDeep w url = (Inr (deepMessage c), foldl exec w2 dnsCommands)
             \<and> hostsFile (foldl exec w2 dnsCommands) = hostsFile w1"
  proof (intro allI impI)
    fix hc w2
    assume a: "readFileSync w1 = (Inr hc, w2)
               \<and> list_ex (\<lambda>block. includesStr hc (secondField block)) (additionalBlocks c)"
    have "hostsFile w2 = hostsFile w1" using a readFileSync_result(2) by blast
    then have "hostsFile (foldl exec w2 dnsCommands) = hostsFile w1"
      using foldl_exec_frame [of w2 dnsCommands] by simp
    then show "blockWebsiteDeep w url = (Inr (deepMessage c), foldl exec w2 dnsCommands)
             \<and> hostsFile (foldl exec w2 dnsCommands) = hostsFile w1"
      using blockWebsiteDeep_branches(2) [OF assms] a by blast
  qed
  have p4: "\<forall>hc w2 m w3. readFileSync w1 = (Inr hc, w2)
               \<and> \<not> list_ex (\<lambda>block. includesStr hc (secondField block)) (additionalBlocks c)
               \<and> writeFileSync w2 (hc @ [nl, nl] @ ''# Student Mode Deep Blocking Entries'' @ [nl]
                                       @ join [nl] (additionalBlocks c) @ [nl]) = (Inl m, w3) \<longrightarrow>
             blockWebsiteDeep w url = (Inr (basicLevelMessage c), w3)
             \<and> hostsFile w3 = hostsFile w1"
  proof (intro allI impI)
    fix hc w2 m w3
    assume a: "readFileSync w1 = (Inr hc, w2)
               \<and> \<not> list_ex (\<lambda>block. includesStr hc (secondField block)) (additionalBlocks c)
               \<and> writeFileSync w2 (hc @ [nl, nl] @ ''# Student Mode Deep Blocking Entries'' @ [nl]
                                       @ join [nl] (additionalBlocks c) @ [nl]) = (Inl m, w3)"
    have "hostsFile w2 = hostsFile w1" using a readFileSync_result(2) by blast
    moreover have "hostsFile w3 = hostsFile w2" using a writeFileSync_result(2) by blast
    ultimately have "hostsFile w3 = hostsFile w1" by simp
    then show "blockWebsiteDeep w url = (Inr (basicLevelMessage c), w3) \<and> hostsFile w3 = hostsFile w1"
      using blockWebsiteDeep_branches(3) [OF assms] a by blast
  qed
  have p5: "\<forall>hc w2 u w3. readFileSync w1 = (Inr hc, w2)
               \<and> \<not> list_ex (\<lambda>block. includesStr hc (secondField block)) (additionalBlocks c)
               \<and> writeFileSync w2 (hc @ [nl, nl] @ ''# Student Mode Deep Blocking Entries'' @ [nl]
                                       @ join [nl] (additionalBlocks c) @ [nl]) = (Inr u, w3) \<longrightarrow>
             blockWebsiteDeep w url = (Inr (deepMessage c), foldl exec w3 dnsCommands)
             \<and> hostsFile (foldl exec w3 dnsCommands)
                 = hostsFile w1 @ [nl, nl] @ ''# Student Mode Deep Blocking Entries'' @ [nl]
                     @ join [nl] (additionalBlocks c) @ [nl]"
  proof (intro allI impI)
    fix hc w2 u w3
    assume a: "readFileSync w1 = (Inr hc, w2)
               \<and> \<not> list_ex (\<lambda>block. includesStr hc (secondField block)) (additionalBlocks c)
               \<and> writeFileSync w2 (hc @ [nl, nl] @ ''# Student Mode Deep Blocking Entries'' @ [nl]
                                       @ join [nl] (additionalBlocks c) @ [nl]) = (Inr u, w3)"
    have "hc = hostsFile w1" using a readFileSync_result(1) by blast
    moreover have "hostsFile w3 = hc @ [nl, nl] @ ''# Student Mode Deep Blocking Entries'' @ [nl]
                     @ join [nl] (additionalBlocks c) @ [nl]"
      using a writeFileSync_result(1) by blast
    ultimately have "hostsFile (foldl exec w3 dnsCommands)
                 = hostsFile w1 @ [nl, nl] @ ''# Student Mode Deep Blocking Entries'' @ [nl]
                     @ join [nl] (additionalBlocks c) @ [nl]"
      using foldl_exec_frame [of w3 dnsCommands] by simp
    then show "blockWebsiteDeep w url = (Inr (deepMessage c), foldl exec w3 dnsCommands)
             \<and> hostsFile (foldl exec w3 dnsCommands)
                 = hostsFile w1 @ [nl, nl] @ ''# Student Mode Deep Blocking Entries'' @ [nl]
                     @ join [nl] (additionalBlocks c) @ [nl]"
      using blockWebsiteDeep_branches(4) [OF assms] a by blast
  qed
  have p7: "\<forall>dur ms. (dur, ms) \<in> set [(''10sec'', 10000), (''12hr'', 43200000), (''1d'', 86400000),
                                       (''2d'', 172800000), (''3d'', 259200000), (''7d'', 604800000)] \<longrightarrow>
             fst (blockWebsiteStudentMode w url dur)
               = Inr \<lparr>smMessage = ''Website '' @ quoted url @ '' blocked in student mode for '' @ dur,
                      smEndTime = clock w + ms, smDuration = dur\<rparr>
             \<and> mapGet (studentModeTimers (snd (blockWebsiteStudentMode w url dur))) url
                 = Some \<lparr>websiteUrl = url, duration = dur, endTime = clock w + ms,
                         startTime = clock w, timeoutId = Some (nextHandle w)\<rparr>
             \<and> timeouts (snd (blockWebsiteStudentMode w url dur))
                 = timeouts w @ [(nextHandle w, clock w + ms, url)]
             \<and> hostsFile (snd (blockWebsiteStudentMode w url dur))
                 = hostsFile (snd (blockWebsiteDeep w url))"
  proof (intro allI impI)
    fix dur :: string and ms :: int
    assume "(dur, ms) \<in> set [(''10sec'', 10000), (''12hr'', 43200000), (''1d'', 86400000),
                              (''2d'', 172800000), (''3d'', 259200000), (''7d'', 604800000)]"
    then have d: "parseDuration dur = ms" "ms \<noteq> 0"
      using parseDuration_table by blast+
    note t = blockWebsiteStudentMode_timer [OF assms(1) d deep frame]
    have "hostsFile w' = hostsFile (snd (blockWebsiteDeep w url))" using deep by simp
    then show "fst (blockWebsiteStudentMode w url dur)
               = Inr \<lparr>smMessage = ''Website '' @ quoted url @ '' blocked in student mode for '' @ dur,
                      smEndTime = clock w + ms, smDuration = dur\<rparr>
             \<and> mapGet (studentModeTimers (snd (blockWebsiteStudentMode w url dur))) url
                 = Some \<lparr>websiteUrl = url, duration = dur, endTime = clock w + ms,
                         startTime = clock w, timeoutId = Some (nextHandle w)\<rparr>
             \<and> timeouts (snd (blockWebsiteStudentMode w url dur))
                 = timeouts w @ [(nextHandle w, clock w + ms, url)]
             \<and> hostsFile (snd (blockWebsiteStudentMode w url dur))
                 = hostsFile (snd (blockWebsiteDeep w url))"
      using t by simp
  qed
  show ?thesis
    by (rule conjI [OF p1 conjI [OF p2 conjI [OF p3 conjI [OF p4 conjI [OF p5 p7]]]]])
qed

theorem deep_block_downgrades_counterexample:
  "fst (blockWebsite dnsFails ''example.com'')
     = Inr (''Website '' @ quoted ''example.com''
            @ '' has been blocked using the system hosts file. Changes take effect immediately.'')
   \<and> execOutcomes (snd (blockWebsite dnsFails ''example.com''))
       = [Some ''Command failed'', Some ''Command failed'', Some ''Command failed'', Some ''Command failed'']
   \<and> fst (blockWebsiteDeep dnsFails ''example.com'') = Inr (deepMessage ''example.com'')
   \<and> fst (blockWebsiteDeep dnsFails ''example.com'') \<noteq> Inr (basicLevelMessage ''example.com'')
   \<and> execLog (snd (blockWebsiteDeep dnsFails ''example.com''))
       = [''ipconfig /flushdns'', ''ipconfig /flushdns'', ''ipconfig /registerdns'',
          ''ipconfig /release'', ''ipconfig /renew'']
   \<and> execOutcomes (snd (blockWebsiteDeep dnsFails ''example.com'')) = []"
  by code_simp


theorem deep_block_downgrades_witness:
  "isRunningAsAdmin deepReadFails \<and> cleanUrlOf ''example.com'' = ''example.com''
   \<and> fst (blockWebsite deepReadFails ''example.com'')
        = Inr (''Website '' @ quoted ''example.com''
               @ '' has been blocked using the system hosts file. Changes take effect immediately.'')
   \<and> fst (readFileSync (snd (blockWebsite deepReadFails ''example.com'')))
        = Inl ''EBUSY: resource busy or locked''
   \<and> fst (blockWebsiteDeep deepReadFails ''example.com'') = Inr (basicLevelMessage ''example.com'')
   \<and> fst (blockWebsiteStudentMode deepReadFails ''example.com'' ''1d'')
        = Inr \<lparr>smMessage = ''Website '' @ quoted ''example.com'' @ '' blocked in student mode for 1d'',
               smEndTime = 87400000, smDuration = ''1d''\<rparr>
   \<and> mapGet (studentModeTimers (snd (blockWebsiteStudentMode deepReadFails ''example.com'' ''1d'')))
          ''example.com''
        = Some \<lparr>websiteUrl = ''example.com'', duration = ''1d'', endTime = 87400000,
                startTime = 1000000, timeoutId = Some 0\<rparr>
   \<and> timeouts (snd (blockWebsiteStudentMode deepReadFails ''example.com'' ''1d''))
        = [(0, 87400000, ''example.com'')]
   \<and> hostsFile (snd (blockWebsiteStudentMode deepReadFails ''example.com'' ''1d''))
        = join [nl] (newEntries ''example.com'') @ [nl]
   \<and> isRunningAsAdmin dnsFails
   \<and> execOutcomes (snd (blockWebsite dnsFails ''example.com''))
        = [Some ''Command failed'', Some ''Command failed'', Some ''Command failed'', Some ''Command failed'']
   \<and> fst (blockWebsiteDeep dnsFails ''example.com'') = Inr (deepMessage ''example.com'')
   \<and> hostsFile (snd (blockWebsiteDeep dnsFails ''example.com''))
        = join [nl] (newEntries ''example.com'') @ [nl]
   \<and> cleanUrlOf ''www.www.x.com'' = ''www.x.com''
   \<and> fst (blockWebsite deepWriteFails ''www.x.com'') = Inr (''Website '' @ quoted ''x.com'' @ '' is already blocked'')
   \<and> fst (blockWebsiteDeep deepWriteFails ''www.www.x.com'') = Inr (basicLevelMessage ''www.x.com'')
   \<and> hostsFile (snd (blockWebsiteDeep deepWriteFails ''www.www.x.com'')) = ''127.0.0.1 x.com'' @ [nl]
   \<and> fst (blockWebsiteDeep deepWriteWorks ''www.www.x.com'') = Inr (deepMessage ''www.x.com'')
   \<and> includesStr (hostsFile (snd (blockWebsiteDeep deepWriteWorks ''www.www.x.com'')))
         (''0.0.0.0 *.www.x.com '' @ deepMarker)"
proof -
  let ?blocked = "''Website '' @ quoted ''example.com''
               @ '' has been blocked using the system hosts file. Changes take effect immediately.''"
  let ?already = "''Website '' @ quoted ''x.com'' @ '' is already blocked''"
  let ?basic = "join [nl] (newEntries ''example.com'') @ [nl]"
  let ?deep = "(''127.0.0.1 x.com'' @ [nl]) @ [nl, nl] @ ''# Student Mode Deep Blocking Entries'' @ [nl]
                 @ join [nl] (additionalBlocks ''www.x.com'') @ [nl]"
  have c1: "cleanUrlOf ''example.com'' = ''example.com''" by code_simp
  have c2: "cleanUrlOf ''www.www.x.com'' = ''www.x.com''" by code_simp
  have n1: "''example.com'' \<noteq> []" and n2: "''www.x.com'' \<noteq> []" by simp_all
  have day: "(''1d'', 86400000) \<in> set [(''10sec'', 10000), (''12hr'', 43200000), (''1d'', 86400000),
                                       (''2d'', 172800000), (''3d'', 259200000), (''7d'', 604800000 :: int)]"
    by simp

  have a1: "isRunningAsAdmin deepReadFails" by code_simp
  have k1: "clock deepReadFails = 1000000" "nextHandle deepReadFails = 0" "timeouts deepReadFails = []"
    by (simp_all add: deepReadFails_def adminWorld_def)
  have bf1: "fst (blockWebsite deepReadFails ''example.com'') = Inr ?blocked" by code_simp
  have b1: "blockWebsite deepReadFails ''example.com''
      = (Inr ?blocked, snd (blockWebsite deepReadFails ''example.com''))"
    by (rule prod_eqI) (simp_all only: bf1 fst_conv snd_conv)
  have rf1: "fst (readFileSync (snd (blockWebsite deepReadFails ''example.com'')))
      = Inl ''EBUSY: resource busy or locked''"
    by code_simp
  have r1: "readFileSync (snd (blockWebsite deepReadFails ''example.com''))
      = (Inl ''EBUSY: resource busy or locked'',
         snd (readFileSync (snd (blockWebsite deepReadFails ''example.com''))))"
    by (rule prod_eqI) (simp_all only: rf1 fst_conv snd_conv)
  note t1 = deep_block_downgrades [OF a1 c1 n1 b1]
  have g1: "fst (blockWebsiteDeep deepReadFails ''example.com'') = Inr (basicLevelMessage ''example.com'')"
    using t1 r1 by (metis fst_conv)
  have s1: "fst (blockWebsiteStudentMode deepReadFails ''example.com'' ''1d'')
        = Inr \<lparr>smMessage = ''Website '' @ quoted ''example.com'' @ '' blocked in student mode for '' @ ''1d'',
               smEndTime = clock deepReadFails + 86400000, smDuration = ''1d''\<rparr>
      \<and> mapGet (studentModeTimers (snd (blockWebsiteStudentMode deepReadFails ''example.com'' ''1d'')))
          ''example.com''
        = Some \<lparr>websiteUrl = ''example.com'', duration = ''1d'', endTime = clock deepReadFails + 86400000,
                startTime = clock deepReadFails, timeoutId = Some (nextHandle deepReadFails)\<rparr>
      \<and> timeouts (snd (blockWebsiteStudentMode deepReadFails ''example.com'' ''1d''))
        = timeouts deepReadFails @ [(nextHandle deepReadFails, clock deepReadFails + 86400000, ''example.com'')]
      \<and> hostsFile (snd (blockWebsiteStudentMode deepReadFails ''example.com'' ''1d''))
        = hostsFile (snd (blockWebsiteDeep deepReadFails ''example.com''))"
    using t1 day by blast
  have h1: "hostsFile (snd (blockWebsiteDeep deepReadFails ''example.com'')) = ?basic" by code_simp
  have q1: "fst (blockWebsiteStudentMode deepReadFails ''example.com'' ''1d'')
        = Inr \<lparr>smMessage = ''Website '' @ quoted ''example.com'' @ '' blocked in student mode for 1d'',
               smEndTime = 87400000, smDuration = ''1d''\<rparr>"
    and q2: "mapGet (studentModeTimers (snd (blockWebsiteStudentMode deepReadFails ''example.com'' ''1d'')))
          ''example.com''
        = Some \<lparr>websiteUrl = ''example.com'', duration = ''1d'', endTime = 87400000,
                startTime = 1000000, timeoutId = Some 0\<rparr>"
    and q3: "timeouts (snd (blockWebsiteStudentMode deepReadFails ''example.com'' ''1d''))
        = [(0, 87400000, ''example.com'')]"
    and q4: "hostsFile (snd (blockWebsiteStudentMode deepReadFails ''example.com'' ''1d'')) = ?basic"
    using s1 by (simp_all add: k1 h1)

  have a2: "isRunningAsAdmin dnsFails" by code_simp
  have bf2: "fst (blockWebsite dnsFails ''example.com'') = Inr ?blocked" by code_simp
  have b2: "blockWebsite dnsFails ''example.com'' = (Inr ?blocked, snd (blockWebsite dnsFails ''example.com''))"
    by (rule prod_eqI) (simp_all only: bf2 fst_conv snd_conv)
  have e2: "execOutcomes (snd (blockWebsite dnsFails ''example.com''))
        = [Some ''Command failed'', Some ''Command failed'', Some ''Command failed'', Some ''Command failed'']"
    by code_simp
  have rf2: "fst (readFileSync (snd (blockWebsite dnsFails ''example.com''))) = Inr ?basic" by code_simp
  have r2: "readFileSync (snd (blockWebsite dnsFails ''example.com''))
      = (Inr ?basic, snd (readFileSync (snd (blockWebsite dnsFails ''example.com''))))"
    by (rule prod_eqI) (simp_all only: rf2 fst_conv snd_conv)
  have hb2: "hostsFile (snd (blockWebsite dnsFails ''example.com'')) = ?basic" by code_simp
  note t2 = deep_block_downgrades [OF a2 c1 n1 b2]
  have x2: "list_ex (\<lambda>block. includesStr ?basic (secondField block)) (additionalBlocks ''example.com'')"
    by code_simp
  have d2: "blockWebsiteDeep dnsFails ''example.com''
        = (Inr (deepMessage ''example.com''),
           foldl exec (snd (readFileSync (snd (blockWebsite dnsFails ''example.com'')))) dnsCommands)
      \<and> hostsFile (foldl exec (snd (readFileSync (snd (blockWebsite dnsFails ''example.com'')))) dnsCommands)
        = hostsFile (snd (blockWebsite dnsFails ''example.com''))"
    using t2 r2 x2 by blast
  have g2: "fst (blockWebsiteDeep dnsFails ''example.com'') = Inr (deepMessage ''example.com'')"
    using d2 by simp
  have h2: "hostsFile (snd (blockWebsiteDeep dnsFails ''example.com'')) = ?basic"
    using d2 hb2 by simp

  have a3: "isRunningAsAdmin deepWriteFails" by code_simp
  have bf3: "fst (blockWebsite deepWriteFails ''www.x.com'') = Inr ?already" by code_simp
  have b3: "blockWebsite deepWriteFails ''www.x.com''
      = (Inr ?already, snd (blockWebsite deepWriteFails ''www.x.com''))"
    by (rule prod_eqI) (simp_all only: bf3 fst_conv snd_conv)
  have rf3: "fst (readFileSync (snd (blockWebsite deepWriteFails ''www.x.com''))) = Inr (''127.0.0.1 x.com'' @ [nl])"
    by code_simp
  have r3: "readFileSync (snd (blockWebsite deepWriteFails ''www.x.com''))
      = (Inr (''127.0.0.1 x.com'' @ [nl]), snd (readFileSync (snd (blockWebsite deepWriteFails ''www.x.com''))))"
    by (rule prod_eqI) (simp_all only: rf3 fst_conv snd_conv)
  have x3: "\<not> list_ex (\<lambda>block. includesStr (''127.0.0.1 x.com'' @ [nl]) (secondField block))
               (additionalBlocks ''www.x.com'')"
    by code_simp
  have wf3: "fst (writeFileSync (snd (readFileSync (snd (blockWebsite deepWriteFails ''www.x.com'')))) ?deep)
      = Inl ''EPERM: operation not permitted''"
    by code_simp
  have w3: "writeFileSync (snd (readFileSync (snd (blockWebsite deepWriteFails ''www.x.com'')))) ?deep
      = (Inl ''EPERM: operation not permitted'',
         snd (writeFileSync (snd (readFileSync (snd (blockWebsite deepWriteFails ''www.x.com'')))) ?deep))"
    by (rule prod_eqI) (simp_all only: wf3 fst_conv snd_conv)
  note t3 = deep_block_downgrades [OF a3 c2 n2 b3]
  have g3: "fst (blockWebsiteDeep deepWriteFails ''www.www.x.com'') = Inr (basicLevelMessage ''www.x.com'')"
    using t3 r3 x3 w3 by (metis fst_conv)
  have h3: "hostsFile (snd (blockWebsiteDeep deepWriteFails ''www.www.x.com'')) = ''127.0.0.1 x.com'' @ [nl]"
    by code_simp

  have a4: "isRunningAsAdmin deepWriteWorks" by code_simp
  have bf4: "fst (blockWebsite deepWriteWorks ''www.x.com'') = Inr ?already" by code_simp
  have b4: "blockWebsite deepWriteWorks ''www.x.com''
      = (Inr ?already, snd (blockWebsite deepWriteWorks ''www.x.com''))"
    by (rule prod_eqI) (simp_all only: bf4 fst_conv snd_conv)
  have rf4: "fst (readFileSync (snd (blockWebsite deepWriteWorks ''www.x.com''))) = Inr (''127.0.0.1 x.com'' @ [nl])"
    by code_simp
  have r4: "readFileSync (snd (blockWebsite deepWriteWorks ''www.x.com''))
      = (Inr (''127.0.0.1 x.com'' @ [nl]), snd (readFileSync (snd (blockWebsite deepWriteWorks ''www.x.com''))))"
    by (rule prod_eqI) (simp_all only: rf4 fst_conv snd_conv)
  have wf4: "fst (writeFileSync (snd (readFileSync (snd (blockWebsite deepWriteWorks ''www.x.com'')))) ?deep)
      = Inr ()"
    by code_simp
  have w4: "writeFileSync (snd (readFileSync (snd (blockWebsite deepWriteWorks ''www.x.com'')))) ?deep
      = (Inr (), snd (writeFileSync (snd (readFileSync (snd (blockWebsite deepWriteWorks ''www.x.com'')))) ?deep))"
    by (rule prod_eqI) (simp_all only: wf4 fst_conv snd_conv)
  note t4 = deep_block_downgrades [OF a4 c2 n2 b4]
  have g4: "fst (blockWebsiteDeep deepWriteWorks ''www.www.x.com'') = Inr (deepMessage ''www.x.com'')"
    using t4 r4 x3 w4 by (metis fst_conv)
  have h4: "includesStr (hostsFile (snd (blockWebsiteDeep deepWriteWorks ''www.www.x.com'')))
         (''0.0.0.0 *.www.x.com '' @ deepMarker)"
    by code_simp
  show ?thesis
    by (intro conjI a1 c1 bf1 rf1 g1 q1 q2 q3 q4 a2 e2 g2 h2 c2 bf3 g3 h3 g4 h4)
qed

subsection \<open>Prefetch records\<close>

lemma runTimesLoop_length: "length (runTimesLoop env buffer n i) \<le> n - i"
proof (induction env buffer n i rule: runTimesLoop.induct)
  case (1 env buffer n i)
  show ?case
  proof (cases "i < n")
    case True
    have "length (runTimesLoop env buffer n (i + 1)) \<le> n - (i + 1)"
      using "1.IH" [OF True refl refl] .
    then show ?thesis
      using True by (subst runTimesLoop.simps) (auto simp: Let_def split: option.splits)
  next
    case False
    then show ?thesis by (subst runTimesLoop.simps) simp
  qed
qed

lemma readLastRunTimes_length: "length (readLastRunTimes env buffer ver n) \<le> 8"
proof (cases "ver \<ge> 26")
  case True
  then show ?thesis
    using runTimesLoop_length [of env buffer "nat (min 8 n)" 0] by (simp add: readLastRunTimes_def)
next
  case False
  then show ?thesis by (simp add: readLastRunTimes_def split: option.splits)
qed

lemma parseStructure_bounds:
  assumes "parseStructure env buffer exe st ver = Some (n, ts, paths, vols)"
  shows "1 \<le> n \<and> n \<le> 10000 \<and> ts \<noteq> []"
proof -
  obtain raw where raw: "getUint32 buffer (if ver \<ge> 26 then 0xD0 else 0x90) = Some raw"
    using assms unfolding parseStructure_def by (auto split: option.splits)
  define rt where "rt = readLastRunTimes env buffer ver raw"
  define ts' where "ts' = (if rt = [] then [mtimeOrNow env st] else rt)"
  have ts: "ts = ts'"
    and n: "n = (if raw \<le> 0 \<or> raw > 10000 then (if length ts' = 0 then 1 else int (length ts')) else raw)"
    using assms raw unfolding parseStructure_def
    by (auto simp: Let_def rt_def ts'_def)
  have ne: "ts' \<noteq> []" by (simp add: ts'_def)
  have "length rt \<le> 8" unfolding rt_def by (rule readLastRunTimes_length)
  then have le: "length ts' \<le> 8" by (simp add: ts'_def)
  have "1 \<le> length ts'" using ne by (cases ts') simp_all
  then show ?thesis using n ts ne le by auto
qed

text \<open>
  C4. For every buffer, file name, file stats and environment,
  \<^verbatim>\<open>parsePrefetchFileBuffer\<close> returns null or a record whose run count lies in 1..10000
  and whose list of run times is not empty. Every throw of the source is a branch of the
  model, so being a total function with these two results is never throwing.
\<close>

theorem parse_bounds:
  "parsePrefetchFileBuffer env buffer filename st = None
   \<or> (\<exists>r. parsePrefetchFileBuffer env buffer filename st = Some r
          \<and> 1 \<le> runCount r \<and> runCount r \<le> 10000 \<and> 1 \<le> length (lastRunTimes r))"
proof (cases "getUint32 buffer 0")
  case None
  then show ?thesis by (simp add: parsePrefetchFileBuffer_def)
next
  case (Some ver)
  define exe where "exe = (case execMatch filename of Some stem \<Rightarrow> stem | None \<Rightarrow> dropPf filename)"
  show ?thesis
  proof (cases "parseStructure env buffer exe st ver")
    case None
    then show ?thesis
      using Some by (simp add: parsePrefetchFileBuffer_def exe_def [symmetric] Let_def)
  next
    case (Some res)
    obtain n ts paths vols where res: "res = (n, ts, paths, vols)" by (cases res)
    have "1 \<le> n \<and> n \<le> 10000 \<and> ts \<noteq> []"
      using parseStructure_bounds Some res by blast
    then have "1 \<le> n \<and> n \<le> 10000 \<and> 1 \<le> length ts"
      by (cases ts) simp_all
    then show ?thesis
      using Some \<open>getUint32 buffer 0 = Some ver\<close> res
      by (simp add: parsePrefetchFileBuffer_def exe_def [symmetric] Let_def)
  qed
qed

lemma keepsBefore_total: "\<not> keepsBefore a b \<Longrightarrow> keepsBefore b a"
  by (auto simp: keepsBefore_def split: option.splits)

lemma keepsBefore_trans: "keepsBefore a b \<Longrightarrow> keepsBefore b c \<Longrightarrow> keepsBefore a c"
  by (auto simp: keepsBefore_def split: option.splits)

lemma keepsBefore_strict: "\<not> keepsBefore a b \<Longrightarrow> latest a \<noteq> latest b"
  by (auto simp: keepsBefore_def split: option.splits)

lemma set_insertRecord: "set (insertRecord r xs) = insert r (set xs)"
  by (induction xs) auto

lemma length_insertRecord: "length (insertRecord r xs) = Suc (length xs)"
  by (induction xs) auto

lemma sorted_insertRecord:
  "sorted_wrt keepsBefore xs \<Longrightarrow> sorted_wrt keepsBefore (insertRecord r xs)"
proof (induction xs)
  case Nil
  then show ?case by simp
next
  case (Cons x xs)
  show ?case
  proof (cases "keepsBefore x r")
    case True
    then show ?thesis using Cons by (auto simp: set_insertRecord)
  next
    case False
    then have rx: "keepsBefore r x" by (rule keepsBefore_total)
    then have "\<forall>y \<in> set xs. keepsBefore r y"
      using Cons.prems keepsBefore_trans by auto
    then show ?thesis using False rx Cons.prems by simp
  qed
qed

lemma filter_insertRecord:
  assumes "sorted_wrt keepsBefore xs"
  shows "filter (\<lambda>y. latest y = k) (insertRecord r xs)
       = filter (\<lambda>y. latest y = k) xs @ (if latest r = k then [r] else [])"
  using assms
proof (induction xs)
  case Nil
  then show ?case by simp
next
  case (Cons x xs)
  show ?case
  proof (cases "keepsBefore x r")
    case True
    then show ?thesis using Cons by simp
  next
    case False
    have "latest y \<noteq> latest r" if "y \<in> set (x # xs)" for y
    proof -
      have "keepsBefore x y \<or> y = x" using Cons.prems that by auto
      then have "\<not> keepsBefore y r" using False keepsBefore_trans by blast
      then show ?thesis by (rule keepsBefore_strict)
    qed
    then have "latest r = k \<Longrightarrow> filter (\<lambda>y. latest y = k) (x # xs) = []"
      by (auto simp: filter_empty_conv)
    then show ?thesis using False by auto
  qed
qed

lemma sortByLatest_fold:
  assumes "sorted_wrt keepsBefore acc"
  shows "sorted_wrt keepsBefore (foldl (\<lambda>acc r. insertRecord r acc) acc rs)
       \<and> set (foldl (\<lambda>acc r. insertRecord r acc) acc rs) = set acc \<union> set rs
       \<and> length (foldl (\<lambda>acc r. insertRecord r acc) acc rs) = length acc + length rs
       \<and> filter (\<lambda>y. latest y = k) (foldl (\<lambda>acc r. insertRecord r acc) acc rs)
           = filter (\<lambda>y. latest y = k) acc @ filter (\<lambda>y. latest y = k) rs"
  using assms
proof (induction rs arbitrary: acc)
  case Nil
  then show ?case by simp
next
  case (Cons r rs)
  have s: "sorted_wrt keepsBefore (insertRecord r acc)"
    using Cons.prems by (rule sorted_insertRecord)
  show ?case
    using Cons.IH [OF s] filter_insertRecord [OF Cons.prems, of k r]
    by (auto simp: set_insertRecord length_insertRecord)
qed

lemma sortByLatest_props:
  "sorted_wrt keepsBefore (sortByLatest rs)"
  "set (sortByLatest rs) = set rs"
  "length (sortByLatest rs) = length rs"
  "filter (\<lambda>y. latest y = k) (sortByLatest rs) = filter (\<lambda>y. latest y = k) rs"
  using sortByLatest_fold [where acc = "[]" and rs = rs and k = k] by (simp_all add: sortByLatest_def)

lemma latest_Max: "lastRunTimes r \<noteq> [] \<Longrightarrow> latest r = Some (Max (set (lastRunTimes r)))"
proof -
  assume "lastRunTimes r \<noteq> []"
  then obtain t ts where e: "lastRunTimes r = t # ts" by (cases "lastRunTimes r") auto
  have "fold max ts t = Max (set (t # ts))" by (rule Max.set_eq_fold [symmetric])
  then show ?thesis by (simp add: latest_def mathMax_def e)
qed


lemma processFiles_skip_any:
  "processFile env f = None \<Longrightarrow>
     processFiles env (f # files) acc n = processFiles env files acc n
     \<or> processFiles env (f # files) acc n = (acc, n)"
  by (auto simp: processFile_def split: option.splits)

lemma processFiles_take:
  "processFile env f = Some r \<Longrightarrow>
     processFiles env (f # files) acc n
       = (if n + 1 \<ge> 100 then (acc @ [r], n + 1) else processFiles env files (acc @ [r]) (n + 1))"
  by (auto simp: processFile_def split: option.splits)


lemma processFiles_member:
  "r \<in> set (fst (processFiles env files acc n)) \<Longrightarrow>
     r \<in> set acc \<or> (\<exists>f \<in> set files. processFile env f = Some r)"
proof (induction files arbitrary: acc n)
  case Nil
  then show ?case by simp
next
  case (Cons f files)
  show ?case
  proof (cases "processFile env f")
    case None
    then show ?thesis
      using processFiles_skip_any [OF None, of files acc n] Cons by auto
  next
    case (Some x)
    show ?thesis
    proof (cases "n + 1 \<ge> 100")
      case True
      then show ?thesis using Cons.prems Some by (auto simp: processFiles_take simp del: processFiles.simps)
    next
      case False
      then have "r \<in> set (fst (processFiles env files (acc @ [x]) (n + 1)))"
        using Cons.prems Some by (simp add: processFiles_take del: processFiles.simps)
      then have "r \<in> set (acc @ [x]) \<or> (\<exists>f \<in> set files. processFile env f = Some r)"
        by (rule Cons.IH)
      then show ?thesis using Some by auto
    qed
  qed
qed

lemma length_map_filter: "length (List.map_filter f xs) = length (filter (\<lambda>x. f x \<noteq> None) xs)"
  by (simp add: List.map_filter_def)

lemma parse_nonempty:
  assumes "parsePrefetchFileBuffer env buffer filename st = Some r"
  shows "lastRunTimes r \<noteq> []"
proof -
  obtain ver where ver: "getUint32 buffer 0 = Some ver"
    using assms by (cases "getUint32 buffer 0") (simp_all add: parsePrefetchFileBuffer_def)
  define exe where "exe = (case execMatch filename of Some stem \<Rightarrow> stem | None \<Rightarrow> dropPf filename)"
  show ?thesis
  proof (cases "parseStructure env buffer exe st ver")
    case None
    then have "lastRunTimes r = sort_key (\<lambda>t. - t) [mtimeOrNow env st]"
      using assms ver by (auto simp: parsePrefetchFileBuffer_def exe_def [symmetric] Let_def)
    then show ?thesis by simp
  next
    case (Some res)
    obtain n ts paths vols where res: "res = (n, ts, paths, vols)" by (cases res)
    have "ts \<noteq> []"
      using parseStructure_bounds Some res by blast
    moreover have "lastRunTimes r = sort_key (\<lambda>t. - t) ts"
      using assms ver Some res by (auto simp: parsePrefetchFileBuffer_def exe_def [symmetric] Let_def)
    ultimately show ?thesis by (cases ts) simp_all
  qed
qed

lemma processFile_nonempty: "processFile env f = Some r \<Longrightarrow> lastRunTimes r \<noteq> []"
  by (auto simp: processFile_def parse_nonempty split: option.splits)

lemma getPrefetchFiles_data:
  "resultData (getPrefetchFiles env dir) = Some data \<Longrightarrow>
     \<exists>entries. dir = Listing entries
       \<and> data = sortByLatest (fst (processFiles env (prefetchFilesOf entries) [] 0))"
proof (cases dir)
  case Missing
  assume "resultData (getPrefetchFiles env dir) = Some data"
  then show ?thesis using Missing by (simp add: getPrefetchFiles_def)
next
  case (Unreadable c m)
  assume "resultData (getPrefetchFiles env dir) = Some data"
  then show ?thesis using Unreadable by (simp add: getPrefetchFiles_def split: if_splits)
next
  case (Listing entries)
  assume a: "resultData (getPrefetchFiles env dir) = Some data"
  show ?thesis
  proof (cases "prefetchFilesOf entries = []")
    case True
    then have "data = []"
      using a Listing by (simp add: getPrefetchFiles_def prefetchFilesOf_def)
    then show ?thesis
      using True Listing by (simp add: sortByLatest_def)
  next
    case False
    then show ?thesis
      using a Listing
      by (auto simp: getPrefetchFiles_def prefetchFilesOf_def Let_def split: prod.splits)
  qed
qed

text \<open>
  C7. The records returned by \<^verbatim>\<open>getPrefetchFiles\<close> all have a run time, are sorted by
  the maximum of their run times in descending order, and records with the same maximum
  stand in the order in which their files were processed: the order is a function of the
  directory listing and of nothing else.
\<close>

theorem records_sorted_by_recency:
  assumes "resultData (getPrefetchFiles env dir) = Some data"
  shows "sorted_wrt (\<lambda>a b. Max (set (lastRunTimes b)) \<le> Max (set (lastRunTimes a))) data
       \<and> (\<forall>r \<in> set data. lastRunTimes r \<noteq> [])
       \<and> (\<forall>entries t. dir = Listing entries \<longrightarrow>
             filter (\<lambda>r. Max (set (lastRunTimes r)) = t) data
               = filter (\<lambda>r. Max (set (lastRunTimes r)) = t)
                   (fst (processFiles env (prefetchFilesOf entries) [] 0)))"
proof -
  obtain entries where dir: "dir = Listing entries"
    and data: "data = sortByLatest (fst (processFiles env (prefetchFilesOf entries) [] 0))"
    using getPrefetchFiles_data [OF assms] by blast
  let ?raw = "fst (processFiles env (prefetchFilesOf entries) [] 0)"
  have ne_raw: "lastRunTimes r \<noteq> []" if "r \<in> set ?raw" for r
    using processFiles_member [OF that] processFile_nonempty by auto
  have ne: "\<forall>r \<in> set data. lastRunTimes r \<noteq> []"
    using ne_raw by (simp add: data sortByLatest_props)
  have key: "latest r = Some (Max (set (lastRunTimes r)))" if "r \<in> set ?raw" for r
    using ne_raw [OF that] by (rule latest_Max)
  have "sorted_wrt keepsBefore data"
    by (simp add: data sortByLatest_props)
  then have sorted: "sorted_wrt (\<lambda>a b. Max (set (lastRunTimes b)) \<le> Max (set (lastRunTimes a))) data"
  proof (rule sorted_wrt_mono_rel [rotated])
    fix a b assume "a \<in> set data" "b \<in> set data" "keepsBefore a b"
    then show "Max (set (lastRunTimes b)) \<le> Max (set (lastRunTimes a))"
      using key by (simp add: data sortByLatest_props keepsBefore_def)
  qed
  have stable: "filter (\<lambda>r. Max (set (lastRunTimes r)) = t) data
               = filter (\<lambda>r. Max (set (lastRunTimes r)) = t) ?raw" for t
  proof -
    have "filter (\<lambda>r. Max (set (lastRunTimes r)) = t) data = filter (\<lambda>r. latest r = Some t) data"
      using key by (intro filter_cong) (auto simp: data sortByLatest_props)
    also have "\<dots> = filter (\<lambda>r. latest r = Some t) ?raw"
      by (simp add: data sortByLatest_props)
    also have "\<dots> = filter (\<lambda>r. Max (set (lastRunTimes r)) = t) ?raw"
      using key by (intro filter_cong) auto
    finally show ?thesis .
  qed
  show ?thesis
    using sorted ne stable dir by simp
qed







theorem records_sorted_by_recency_witness:
  "\<exists>data. resultData (getPrefetchFiles sampleEnv sampleDirectory) = Some data
     \<and> map prefetchPath data = [''CHROME.EXE-AABBCCDD.pf'', ''NOTEPAD.EXE-1A2B3C4D.pf'']
     \<and> map lastRunTimes data = [[1700000000000], [1695000000000]]
     \<and> sorted_wrt (\<lambda>a b. Max (set (lastRunTimes b)) \<le> Max (set (lastRunTimes a))) data"
proof -
  have e: "map_option (map (\<lambda>r. (prefetchPath r, lastRunTimes r)))
             (resultData (getPrefetchFiles sampleEnv sampleDirectory))
           = Some [(''CHROME.EXE-AABBCCDD.pf'', [1700000000000]),
                   (''NOTEPAD.EXE-1A2B3C4D.pf'', [1695000000000])]"
    by code_simp
  then obtain data where d: "resultData (getPrefetchFiles sampleEnv sampleDirectory) = Some data"
    by auto
  have m: "map (\<lambda>r. (prefetchPath r, lastRunTimes r)) data
      = [(''CHROME.EXE-AABBCCDD.pf'', [1700000000000]), (''NOTEPAD.EXE-1A2B3C4D.pf'', [1695000000000])]"
    using e d by simp
  have p: "map prefetchPath data = map fst (map (\<lambda>r. (prefetchPath r, lastRunTimes r)) data)"
    and t: "map lastRunTimes data = map snd (map (\<lambda>r. (prefetchPath r, lastRunTimes r)) data)"
    by (simp_all add: comp_def)
  have "sorted_wrt (\<lambda>a b. Max (set (lastRunTimes b)) \<le> Max (set (lastRunTimes a))) data"
    using records_sorted_by_recency [OF d] by blast
  then show ?thesis
    using d p t unfolding m by auto
qed

theorem parse_bounds_witness:
  "(\<exists>r. parsePrefetchFileBuffer sampleEnv vistaBuffer ''CHROME.EXE-AABBCCDD.pf'' sampleStats = Some r
        \<and> runCount r = 5 \<and> lastRunTimes r = [1700000000000])
   \<and> (\<exists>r. parsePrefetchFileBuffer sampleEnv corruptBuffer ''NOTEPAD.EXE-1A2B3C4D.pf'' sampleStats = Some r
        \<and> runCount r = 1 \<and> lastRunTimes r = [1690000000000])
   \<and> parsePrefetchFileBuffer sampleEnv [1, 2, 3] ''NOTEPAD.EXE-1A2B3C4D.pf'' sampleStats = None"
proof -
  have n: "parsePrefetchFileBuffer sampleEnv [1, 2, 3] ''NOTEPAD.EXE-1A2B3C4D.pf'' sampleStats = None"
    by code_simp
  have v: "map_option (\<lambda>r. (runCount r, lastRunTimes r))
             (parsePrefetchFileBuffer sampleEnv vistaBuffer ''CHROME.EXE-AABBCCDD.pf'' sampleStats)
           = Some (5, [1700000000000])"
    by code_simp
  have f: "map_option (\<lambda>r. (runCount r, lastRunTimes r))
             (parsePrefetchFileBuffer sampleEnv corruptBuffer ''NOTEPAD.EXE-1A2B3C4D.pf'' sampleStats)
           = Some (1, [1690000000000])"
    by code_simp
  show ?thesis
    using parse_bounds [of sampleEnv corruptBuffer "''NOTEPAD.EXE-1A2B3C4D.pf''" sampleStats] v f n
    by auto
qed

end
